theory Spec2Isabelle
  imports Complex_Main
begin

section \<open>Translation catalog\<close>

text \<open>
  Both components read \<open>translations\<close> from \<open>lib/i18n\<close>, which is not among the
  source files.  The catalog is therefore kept abstract: a bundle of display strings per
  language key.  The fields are the ones the code reads (\<open>t.translationActive\<close>,
  \<open>t.subtitleSamples\<close>, \<open>t.errorFillFields\<close>, ...).
\<close>

record lang_bundle =
  translationActive :: string
  subtitleSamples :: "string list"
  errorFillFields :: string
  errorEmailInUse :: string
  errorInvalidEmail :: string
  errorInvalidCredential :: string
  errorWeakPassword :: string
  errorUnexpected :: string

text \<open>
  Modelled from the spec: the translation catalog (\<open>lib/i18n\<close>) is missing.  It is a
  static mapping from language codes to bundles that always has the default entry
  \<open>en\<close> (the code reads \<open>translations.en\<close> as its fallback); which other keys it has
  is left open.
\<close>

record catalog =
  en :: lang_bundle
  rest :: "string \<rightharpoonup> lang_bundle"

definition translations_tbl :: "catalog \<Rightarrow> string \<Rightarrow> lang_bundle option" where
  "translations_tbl c k = (if k = ''en'' then Some (en c) else rest c k)"

text \<open>\<open>const t = translations[lang] || translations.en\<close> (App.tsx line 35, AuthModal).\<close>

definition t_of :: "catalog \<Rightarrow> string \<Rightarrow> lang_bundle" where
  "t_of c lang = (case translations_tbl c lang of Some b \<Rightarrow> b | None \<Rightarrow> en c)"

section \<open>State of the overlay (\<open>App\<close>)\<close>

type_synonym uid = string

text \<open>A durable record: field name to value.  Only the field \<open>language\<close> is read.\<close>

type_synonym doc = "string \<rightharpoonup> string"

text \<open>Every request that leaves the page, in order.\<close>

datatype request = DurableGet uid | GeoFetch | DurableSet uid doc

text \<open>
  The answer of the geolocation service: the fetch, the decoding of its body or the
  reading of \<open>country_code\<close> throws, or a body arrives whose \<open>country_code\<close> is
  absent or a string.
\<close>

datatype geo_result = GeoFails | GeoOk "string option"

text \<open>What the surroundings answer during one resolution pass or one durable write.\<close>

record env =
  get_fails :: bool
  set_fails :: bool
  navigator_language :: string
  geo :: geo_result

text \<open>
  A timer of the window: its handle and its delay (\<open>setTimeout\<close>) or period
  (\<open>setInterval\<close>).  Both kinds share one pool of handles.
\<close>

datatype timer = Timeout nat nat | Interval nat nat

fun handle_of :: "timer \<Rightarrow> nat" where
  "handle_of (Timeout h d) = h"
| "handle_of (Interval h d) = h"

fun is_timeout :: "timer \<Rightarrow> bool" where
  "is_timeout (Timeout h d) = True"
| "is_timeout (Interval h d) = False"

text \<open>
  The \<open>useState\<close> cells and refs of \<open>App\<close> that its logic reads (\<open>audioEnabled\<close>
  and \<open>subtitleSize\<close> only reach the markup), the handle held by the cleanup closure of
  the subtitle effect, the inline position of the floating control, and the parts of the
  surroundings the component acts on: the timers of the window, the durable store, the
  local store, the requests sent, the console and the alerts shown.
  \<open>currentSubtitle\<close> is \<open>None\<close> when it holds \<open>undefined\<close>.
\<close>

record app =
  user :: "uid option"
  loading :: bool
  isAuthModalOpen :: bool
  isPanelOpen :: bool
  isSettingsOpen :: bool
  isTranslationStopped :: bool
  detectedLang :: string
  subtitlesEnabled :: bool
  currentSubtitle :: "string option"
  inactivityTimerRef :: "nat option"
  subtitleInterval :: "nat option"
  buttonStyle :: "(int \<times> int) option"
  timers :: "timer list"
  next_handle :: nat
  durable :: "uid \<rightharpoonup> doc"
  localStorage :: "string \<rightharpoonup> string"
  requests :: "request list"
  console :: "string list"
  alerts :: "string list"

text \<open>
  The state after the first render: the initial values of the \<open>useState\<close> cells, no
  timer, and \<open>setTimeout\<close>/\<open>setInterval\<close> handing out handles from 1 (the handles of
  a window are positive integers).
\<close>

definition init_app :: "(uid \<rightharpoonup> doc) \<Rightarrow> (string \<rightharpoonup> string) \<Rightarrow> app" where
  "init_app store local =
     \<lparr>user = None, loading = True, isAuthModalOpen = False, isPanelOpen = False,
      isSettingsOpen = False, isTranslationStopped = False, detectedLang = ''en'',
      subtitlesEnabled = True, currentSubtitle = Some [], inactivityTimerRef = None,
      subtitleInterval = None, buttonStyle = None, timers = [], next_handle = 1,
      durable = store, localStorage = local, requests = [], console = [], alerts = []\<rparr>"

section \<open>Preference resolver (\<open>loadUserProfile\<close>)\<close>

text \<open>JavaScript truthiness of a string: every string but the empty one.\<close>

definition truthy :: "string \<Rightarrow> bool" where
  "truthy s = (s \<noteq> [])"

text \<open>\<open>String.prototype.toLowerCase\<close> on the ASCII letters.\<close>

definition toLowerChar :: "char \<Rightarrow> char" where
  "toLowerChar ch =
     (let n = (of_char ch :: nat) in if 65 \<le> n \<and> n \<le> 90 then char_of (n + 32) else ch)"

definition toLowerCase :: "string \<Rightarrow> string" where
  "toLowerCase s = map toLowerChar s"

text \<open>\<open>s.split('-')[0]\<close>: the part of \<open>s\<close> before its first hyphen.\<close>

definition primary_subtag :: "string \<Rightarrow> string" where
  "primary_subtag s = takeWhile (\<lambda>ch. ch \<noteq> CHR ''-'') s"

text \<open>
  The table \<open>langMap\<close> of line 89, read at a lower-cased country code.  Only its own
  five keys are modelled; no country code names a property that an object inherits.
\<close>

definition langMap :: "string \<Rightarrow> string option" where
  "langMap cc =
     (if cc = ''es'' then Some ''es''
      else if cc = ''mx'' then Some ''es''
      else if cc = ''fr'' then Some ''fr''
      else if cc = ''pt'' then Some ''pt''
      else if cc = ''br'' then Some ''pt''
      else None)"

text \<open>
  \<open>set(partial, { merge: true })\<close> on the record of \<open>u\<close>: the record is created when
  it does not exist, and otherwise only the fields of \<open>partial\<close> are overwritten.
\<close>

definition merge_set :: "uid \<Rightarrow> doc \<Rightarrow> (uid \<rightharpoonup> doc) \<Rightarrow> (uid \<rightharpoonup> doc)" where
  "merge_set u partial st =
     st(u \<mapsto> (case st u of None \<Rightarrow> partial | Some d \<Rightarrow> d ++ partial))"

text \<open>
  Priority 1 (lines 59-70).  The result is the language found in the durable record, if the
  pass stops here.  A failing \<open>get\<close> is caught and logged.
\<close>

definition priority1 :: "env \<Rightarrow> app \<Rightarrow> string option \<times> app" where
  "priority1 e s =
     (case user s of
        None \<Rightarrow> (None, s)
      | Some u \<Rightarrow>
          (let s1 = s\<lparr>requests := requests s @ [DurableGet u]\<rparr> in
           if get_fails e
           then (None, s1\<lparr>console := console s1 @ [''Error fetching user profile from Firestore:'']\<rparr>)
           else
             (case durable s1 u of
                None \<Rightarrow> (None, s1)
              | Some d \<Rightarrow>
                  (case d ''language'' of
                     None \<Rightarrow> (None, s1)
                   | Some l \<Rightarrow> if truthy l then (Some l, s1) else (None, s1)))))"

text \<open>Priority 2 (lines 73-77): the local store, when it holds a supported code.\<close>

definition priority2 :: "catalog \<Rightarrow> app \<Rightarrow> string option" where
  "priority2 c s =
     (case localStorage s ''youvoix-lang'' of
        None \<Rightarrow> None
      | Some lastUsedLang \<Rightarrow>
          if truthy lastUsedLang \<and> translations_tbl c lastUsedLang \<noteq> None
          then Some lastUsedLang else None)"

text \<open>Priority 3 (lines 80-96): the locale, else one geolocation lookup, else \<open>en\<close>.\<close>

definition priority3 :: "catalog \<Rightarrow> env \<Rightarrow> app \<Rightarrow> string \<times> app" where
  "priority3 c e s =
     (let browserLang = primary_subtag (navigator_language e) in
      if translations_tbl c browserLang \<noteq> None then (browserLang, s)
      else
        (let s1 = s\<lparr>requests := requests s @ [GeoFetch]\<rparr> in
         case geo e of
           GeoFails \<Rightarrow>
             (''en'', s1\<lparr>console := console s1 @ [''Could not detect language via IP. Using default.'']\<rparr>)
         | GeoOk None \<Rightarrow> (''en'', s1)
         | GeoOk (Some country_code) \<Rightarrow>
             (let countryCode = toLowerCase country_code in
              if truthy countryCode
              then (case langMap countryCode of Some l \<Rightarrow> (l, s1) | None \<Rightarrow> (''en'', s1))
              else (''en'', s1))))"

text \<open>
  The write of lines 100-102.  It is not awaited: when the store refuses it, nothing is
  caught and nothing else changes.
\<close>

definition write_back :: "env \<Rightarrow> string \<Rightarrow> app \<Rightarrow> app" where
  "write_back e langToSet s =
     (case user s of
        None \<Rightarrow> s
      | Some u \<Rightarrow>
          (let partial = [''language'' \<mapsto> langToSet];
               s1 = s\<lparr>requests := requests s @ [DurableSet u partial]\<rparr>
           in if set_fails e then s1 else s1\<lparr>durable := merge_set u partial (durable s1)\<rparr>))"

definition loadUserProfile :: "catalog \<Rightarrow> env \<Rightarrow> app \<Rightarrow> app" where
  "loadUserProfile c e s =
     (case priority1 e s of
        (Some l, s1) \<Rightarrow> s1\<lparr>detectedLang := l\<rparr>
      | (None, s1) \<Rightarrow>
          (case priority2 c s1 of
             Some lastUsedLang \<Rightarrow> s1\<lparr>detectedLang := lastUsedLang\<rparr>
           | None \<Rightarrow>
               (case priority3 c e s1 of
                  (langToSet, s2) \<Rightarrow> write_back e langToSet (s2\<lparr>detectedLang := langToSet\<rparr>))))"

text \<open>\<open>handleLanguageChange\<close> (lines 160-171).\<close>

definition handleLanguageChange :: "env \<Rightarrow> string \<Rightarrow> app \<Rightarrow> app" where
  "handleLanguageChange e newLang s =
     (let s1 = s\<lparr>detectedLang := newLang,
                  localStorage := (localStorage s)(''youvoix-lang'' \<mapsto> newLang)\<rparr>
      in case user s1 of
           None \<Rightarrow> s1
         | Some u \<Rightarrow>
             (let partial = [''language'' \<mapsto> newLang];
                  s2 = s1\<lparr>requests := requests s1 @ [DurableSet u partial]\<rparr>
              in if set_fails e
                 then s2\<lparr>console := console s2 @ [''Failed to save language preference:''],
                         alerts := alerts s2 @ [''Could not save language preference. Please try again.'']\<rparr>
                 else s2\<lparr>durable := merge_set u partial (durable s2)\<rparr>))"

section \<open>Timers\<close>

definition clearTimer :: "nat \<Rightarrow> app \<Rightarrow> app" where
  "clearTimer h s = s\<lparr>timers := filter (\<lambda>t. handle_of t \<noteq> h) (timers s)\<rparr>"

definition window_setTimeout :: "nat \<Rightarrow> app \<Rightarrow> nat \<times> app" where
  "window_setTimeout delay s =
     (next_handle s,
      s\<lparr>timers := timers s @ [Timeout (next_handle s) delay], next_handle := Suc (next_handle s)\<rparr>)"

definition window_setInterval :: "nat \<Rightarrow> app \<Rightarrow> nat \<times> app" where
  "window_setInterval period s =
     (next_handle s,
      s\<lparr>timers := timers s @ [Interval (next_handle s) period], next_handle := Suc (next_handle s)\<rparr>)"

text \<open>The scheduled closes that have neither fired nor been cancelled.\<close>

definition pending_closes :: "app \<Rightarrow> timer list" where
  "pending_closes s = filter is_timeout (timers s)"

text \<open>The intervals that have not been cleared.\<close>

definition live_intervals :: "app \<Rightarrow> timer list" where
  "live_intervals s = filter (\<lambda>t. \<not> is_timeout t) (timers s)"

text \<open>
  \<open>if (inactivityTimerRef.current) clearTimeout(inactivityTimerRef.current)\<close>: the ref is
  \<open>null\<close> or a number, and a number is truthy when it is not 0.
\<close>

definition clear_inactivity :: "app \<Rightarrow> app" where
  "clear_inactivity s =
     (case inactivityTimerRef s of
        None \<Rightarrow> s
      | Some h \<Rightarrow> if h \<noteq> 0 then clearTimer h s else s)"

text \<open>\<open>resetInactivityTimer\<close> (lines 124-127).\<close>

definition resetInactivityTimer :: "app \<Rightarrow> app" where
  "resetInactivityTimer s =
     (case window_setTimeout 5000 (clear_inactivity s) of
        (h, s1) \<Rightarrow> s1\<lparr>inactivityTimerRef := Some h\<rparr>)"

text \<open>The callback of the scheduled close: \<open>() => setIsPanelOpen(false)\<close>.\<close>

definition inactivity_callback :: "app \<Rightarrow> app" where
  "inactivity_callback s = s\<lparr>isPanelOpen := False\<rparr>"

section \<open>Subtitle simulation effect (lines 109-121)\<close>

definition subtitle_effect :: "catalog \<Rightarrow> app \<Rightarrow> app" where
  "subtitle_effect c s =
     (if user s \<noteq> None \<and> subtitlesEnabled s \<and> \<not> isTranslationStopped s
      then
        (let t = t_of c (detectedLang s) in
         case window_setInterval 3000 (s\<lparr>currentSubtitle := Some (translationActive t)\<rparr>) of
           (interval, s1) \<Rightarrow> s1\<lparr>subtitleInterval := Some interval\<rparr>)
      else s\<lparr>currentSubtitle := Some [], subtitleInterval := None\<rparr>)"

text \<open>The cleanup the effect returns on its first branch: \<open>clearInterval(interval)\<close>.\<close>

definition subtitle_cleanup :: "app \<Rightarrow> app" where
  "subtitle_cleanup s =
     (case subtitleInterval s of
        None \<Rightarrow> s
      | Some interval \<Rightarrow> clearTimer interval s)"

text \<open>
  JavaScript numbers are binary64.  A value of \<open>Math.random()\<close> is a binary64 number
  in \<open>[0, 1)\<close>: a number \<open>m / 2^e\<close> with \<open>m < 2^53\<close>, \<open>e \<le> 1074\<close> and \<open>m < 2^e\<close>,
  and every such number is one.
\<close>

datatype rnd64 = Rnd (mant: nat) (expo: nat)


definition is_random :: "rnd64 \<Rightarrow> bool" where
  "is_random r \<longleftrightarrow> mant r < 2 ^ 53 \<and> expo r \<le> 1074 \<and> mant r < 2 ^ expo r"

text \<open>The number of binary digits of a natural number.\<close>

fun bits :: "nat \<Rightarrow> nat" where
  "bits n = (if n = 0 then 0 else Suc (bits (n div 2)))"

declare bits.simps [simp del]

text \<open>
  Rounding a natural number to 53 significant binary digits, to the nearest and in a tie
  to the even significand, as binary64 arithmetic rounds.
\<close>

definition round53 :: "nat \<Rightarrow> nat" where
  "round53 a =
     (if bits a \<le> 53 then a
      else
        (let sh = bits a - 53; q = a div 2 ^ sh; rem = a mod 2 ^ sh in
         if 2 ^ sh < 2 * rem \<or> (2 * rem = 2 ^ sh \<and> odd q)
         then (q + 1) * 2 ^ sh else q * 2 ^ sh))"

text \<open>
  The binary64 product \<open>r * n\<close> of a random number and an array length (a natural
  number below \<open>2^32\<close>, which binary64 holds exactly): the exact product
  \<open>m * n / 2^e\<close> with its numerator rounded to 53 digits.
\<close>

definition times64 :: "rnd64 \<Rightarrow> nat \<Rightarrow> real" where
  "times64 r n = real (round53 (mant r * n)) / 2 ^ expo r"

text \<open>\<open>Math.floor(Math.random() * samples.length)\<close>, with \<open>r\<close> the random number.\<close>

definition random_index :: "rnd64 \<Rightarrow> nat \<Rightarrow> nat" where
  "random_index r n = nat \<lfloor>times64 r n\<rfloor>"

text \<open>
  The callback of the interval, with \<open>r\<close> the value of \<open>Math.random()\<close>.  The effect
  runs again whenever \<open>t\<close> changes, so the \<open>t\<close> of the closure is the current one.
  An index outside the array reads \<open>undefined\<close>.
\<close>

definition interval_callback :: "catalog \<Rightarrow> rnd64 \<Rightarrow> app \<Rightarrow> app" where
  "interval_callback c r s =
     (let samples = subtitleSamples (t_of c (detectedLang s));
          randomIndex = random_index r (length samples)
      in s\<lparr>currentSubtitle :=
              (if randomIndex < length samples then Some (samples ! randomIndex) else None)\<rparr>)"

section \<open>Panel auto-close and outside click (lines 129-155)\<close>

text \<open>
  Whether the refs are attached: nothing is rendered while \<open>loading\<close>, the container of
  the floating control is rendered otherwise, and the panel when \<open>isPanelOpen && user\<close>.
\<close>

definition buttonRef :: "app \<Rightarrow> bool" where
  "buttonRef s = (\<not> loading s)"

definition panelRef :: "app \<Rightarrow> bool" where
  "panelRef s = (\<not> loading s \<and> isPanelOpen s \<and> user s \<noteq> None)"

text \<open>
  \<open>handleOutsideClick\<close>; \<open>in_panel\<close> and \<open>in_button\<close> say whether the target of the
  event lies in the panel and in the container of the floating control.
\<close>

definition handleOutsideClick :: "bool \<Rightarrow> bool \<Rightarrow> app \<Rightarrow> app" where
  "handleOutsideClick in_panel in_button s =
     (if isPanelOpen s \<and> panelRef s \<and> \<not> in_panel \<and> buttonRef s \<and> \<not> in_button
      then s\<lparr>isPanelOpen := False\<rparr>
      else s)"

text \<open>
  The body of the effect.  The listeners it registers are not state of the model: the
  \<open>mousedown\<close> listener of the document lives exactly while \<open>isPanelOpen\<close>, the two
  listeners of the panel as long as the panel element.
\<close>

definition panel_effect :: "app \<Rightarrow> app" where
  "panel_effect s = (if isPanelOpen s then resetInactivityTimer s else clear_inactivity s)"

definition panel_cleanup :: "app \<Rightarrow> app" where
  "panel_cleanup s = clear_inactivity s"

section \<open>Authentication listener (lines 40-53)\<close>

definition onAuthStateChanged :: "uid option \<Rightarrow> app \<Rightarrow> app" where
  "onAuthStateChanged currentUser s =
     (let s1 = s\<lparr>user := currentUser, loading := False\<rparr> in
      if currentUser \<noteq> None
      then s1\<lparr>isPanelOpen := True\<rparr>
      else s1\<lparr>isPanelOpen := False, isSettingsOpen := False\<rparr>)"

section \<open>Draggable button (\<open>handleDrag\<close>, lines 182-218)\<close>

text \<open>
  One pointer-down to pointer-up sequence: the variables of the closure of
  \<open>handleDrag\<close>, among them the \<open>user\<close> of the render that created the handler.
\<close>

record drag =
  hasMoved :: bool
  startX :: int
  startY :: int
  startLeft :: int
  startTop :: int
  drag_user :: "uid option"

text \<open>
  \<open>e\<close> is \<open>(clientX, clientY)\<close> of the event, \<open>button\<close> the offsets
  \<open>(offsetLeft, offsetTop)\<close> of \<open>buttonRef.current\<close>, or \<open>None\<close> when the ref is
  \<open>null\<close>; then the handler returns at once and registers nothing.
\<close>

definition handleDrag :: "int \<times> int \<Rightarrow> (int \<times> int) option \<Rightarrow> app \<Rightarrow> drag option" where
  "handleDrag e button s =
     (case button of
        None \<Rightarrow> None
      | Some (offsetLeft, offsetTop) \<Rightarrow>
          Some \<lparr>hasMoved = False, startX = fst e, startY = snd e,
                startLeft = offsetLeft, startTop = offsetTop, drag_user = user s\<rparr>)"

definition onMouseMove :: "int \<times> int \<Rightarrow> drag \<times> app \<Rightarrow> drag \<times> app" where
  "onMouseMove moveEvent ds =
     (case ds of (d, s) \<Rightarrow>
        (let dx = fst moveEvent - startX d; dy = snd moveEvent - startY d in
         if \<bar>dx\<bar> > 5 \<or> \<bar>dy\<bar> > 5
         then (d\<lparr>hasMoved := True\<rparr>, s\<lparr>buttonStyle := Some (startLeft d + dx, startTop d + dy)\<rparr>)
         else (d, s)))"

text \<open>What \<open>onMouseUp\<close> does besides removing the two listeners.\<close>

datatype click_action = TogglePanel | OpenAuthModal

definition onMouseUp_actions :: "drag \<Rightarrow> click_action list" where
  "onMouseUp_actions d =
     (if \<not> hasMoved d
      then (if drag_user d \<noteq> None then [TogglePanel] else [OpenAuthModal])
      else [])"

fun perform :: "click_action \<Rightarrow> app \<Rightarrow> app" where
  "perform TogglePanel s = s\<lparr>isPanelOpen := \<not> isPanelOpen s\<rparr>"
| "perform OpenAuthModal s = s\<lparr>isAuthModalOpen := True\<rparr>"

definition onMouseUp :: "drag \<Rightarrow> app \<Rightarrow> app" where
  "onMouseUp d s = fold perform (onMouseUp_actions d) s"

text \<open>The closure after pointer-down and the moves \<open>moves\<close>, with the state.\<close>

definition drag_moves :: "(int \<times> int) list \<Rightarrow> drag \<times> app \<Rightarrow> drag \<times> app" where
  "drag_moves moves ds = fold onMouseMove moves ds"

text \<open>A whole sequence: pointer-down, the moves, pointer-up.\<close>

definition gesture :: "int \<times> int \<Rightarrow> (int \<times> int) option \<Rightarrow> (int \<times> int) list \<Rightarrow> app \<Rightarrow> app" where
  "gesture e button moves s =
     (case handleDrag e button s of
        None \<Rightarrow> s
      | Some d \<Rightarrow> (case drag_moves moves (d, s) of (d1, s1) \<Rightarrow> onMouseUp d1 s1))"

text \<open>What the pointer-up of that sequence does.\<close>

definition gesture_actions ::
  "int \<times> int \<Rightarrow> (int \<times> int) option \<Rightarrow> (int \<times> int) list \<Rightarrow> app \<Rightarrow> click_action list" where
  "gesture_actions e button moves s =
     (case handleDrag e button s of
        None \<Rightarrow> []
      | Some d \<Rightarrow> onMouseUp_actions (fst (drag_moves moves (d, s))))"

section \<open>Events and re-rendering\<close>

text \<open>
  The object \<open>t\<close> of a render, up to identity: the entry of the catalog for a supported
  \<open>detectedLang\<close>, the entry \<open>en\<close> otherwise.
\<close>

definition t_key :: "catalog \<Rightarrow> string \<Rightarrow> string" where
  "t_key c lang = (if translations_tbl c lang \<noteq> None then lang else ''en'')"

text \<open>The dependency list \<open>[user, subtitlesEnabled, isTranslationStopped, t]\<close>.\<close>

definition subtitle_deps :: "catalog \<Rightarrow> app \<Rightarrow> uid option \<times> bool \<times> bool \<times> string" where
  "subtitle_deps c s =
     (user s, subtitlesEnabled s, isTranslationStopped s, t_key c (detectedLang s))"

text \<open>
  After a handler has taken the state from \<open>old\<close> to \<open>new\<close>, the effects whose
  dependencies changed run again: first their cleanups, then their bodies, in the order
  of the component.
\<close>

definition commit :: "catalog \<Rightarrow> app \<Rightarrow> app \<Rightarrow> app" where
  "commit c old new =
     (let sub = (subtitle_deps c old \<noteq> subtitle_deps c new);
          pan = (isPanelOpen old \<noteq> isPanelOpen new);
          s1 = (if sub then subtitle_cleanup new else new);
          s2 = (if pan then panel_cleanup s1 else s1);
          s3 = (if sub then subtitle_effect c s2 else s2)
      in if pan then panel_effect s3 else s3)"

text \<open>
  What can happen to the mounted component.  \<open>ProfileLoad\<close> is one run of
  \<open>loadUserProfile\<close>; \<open>Gesture e button moves\<close> is a pointer-down at \<open>e\<close> on the
  floating control, whose container has the offsets \<open>button\<close>, followed by the moves and
  the pointer-up.
\<close>

datatype event =
    AuthStateChanged "uid option"
  | ProfileLoad env
  | LanguageSelected env string
  | IntervalFires nat rnd64
  | TimeoutFires nat
  | DocumentMouseDown bool bool
  | PanelMouseEnter
  | PanelMouseLeave
  | SubtitlesChecked bool
  | StopClicked
  | SettingsClicked
  | Gesture "int \<times> int" "int \<times> int" "(int \<times> int) list"
  | AuthModalClosed

text \<open>
  The handler of an event, guarded by what makes the event possible: the control it
  comes from is rendered, the listener is registered, the timer is live.
\<close>

fun handler :: "catalog \<Rightarrow> event \<Rightarrow> app \<Rightarrow> app" where
  "handler c (AuthStateChanged currentUser) s = onAuthStateChanged currentUser s"
| "handler c (ProfileLoad e) s = loadUserProfile c e s"
| "handler c (LanguageSelected e newLang) s =
     (if panelRef s \<and> isSettingsOpen s then handleLanguageChange e newLang s else s)"
| "handler c (IntervalFires h r) s =
     (if h \<in> set (map handle_of (live_intervals s)) \<and> is_random r
      then interval_callback c r s else s)"
| "handler c (TimeoutFires h) s =
     (if h \<in> set (map handle_of (pending_closes s))
      then inactivity_callback (clearTimer h s) else s)"
| "handler c (DocumentMouseDown in_panel in_button) s =
     (if isPanelOpen s then handleOutsideClick in_panel in_button s else s)"
| "handler c PanelMouseEnter s = (if panelRef s then clear_inactivity s else s)"
| "handler c PanelMouseLeave s = (if panelRef s then resetInactivityTimer s else s)"
| "handler c (SubtitlesChecked b) s = (if panelRef s then s\<lparr>subtitlesEnabled := b\<rparr> else s)"
| "handler c StopClicked s =
     (if panelRef s then s\<lparr>isTranslationStopped := \<not> isTranslationStopped s\<rparr> else s)"
| "handler c SettingsClicked s =
     (if panelRef s then s\<lparr>isSettingsOpen := \<not> isSettingsOpen s\<rparr> else s)"
| "handler c (Gesture e button moves) s =
     (if buttonRef s then gesture e (Some button) moves s else s)"
| "handler c AuthModalClosed s =
     (if \<not> loading s \<and> isAuthModalOpen s \<and> user s = None
      then s\<lparr>isAuthModalOpen := False\<rparr> else s)"

definition step :: "catalog \<Rightarrow> event \<Rightarrow> app \<Rightarrow> app" where
  "step c ev s = commit c s (handler c ev s)"

definition run :: "catalog \<Rightarrow> event list \<Rightarrow> app \<Rightarrow> app" where
  "run c evs s = fold (step c) evs s"

section \<open>Authentication prompt (\<open>AuthModal\<close>)\<close>

datatype auth_action = Login | Register

datatype provider_call =
    CreateUserWithEmailAndPassword string string
  | SignInWithEmailAndPassword string string

text \<open>The answer of the identity provider: success, or an error with its \<open>code\<close>.\<close>

datatype auth_response = AuthOk | AuthFails string

text \<open>
  The \<open>useState\<close> cells of the prompt (\<open>loading_modal\<close> is its \<open>loading\<close>), the
  calls made to the identity provider, how often \<open>onClose\<close> was called, and the console.
\<close>

record auth_modal =
  email :: string
  password :: string
  loading_modal :: bool
  actionInProgress :: "auth_action option"
  error :: "string option"
  provider_calls :: "provider_call list"
  onClose_calls :: nat
  modal_console :: "string list"

text \<open>\<open>handleFirebaseError\<close>: the message, and whether the code was logged as unhandled.\<close>

definition handleFirebaseError :: "lang_bundle \<Rightarrow> string \<Rightarrow> string \<times> bool" where
  "handleFirebaseError t code =
     (if code = ''auth/email-already-in-use'' then (errorEmailInUse t, False)
      else if code = ''auth/invalid-email'' then (errorInvalidEmail t, False)
      else if code = ''auth/wrong-password'' \<or> code = ''auth/user-not-found''
              \<or> code = ''auth/invalid-credential'' then (errorInvalidCredential t, False)
      else if code = ''auth/weak-password'' then (errorWeakPassword t, False)
      else (errorUnexpected t, True))"

text \<open>
  \<open>handleAuthAction\<close> up to its \<open>await\<close>: \<open>Inl\<close> when it has returned after the
  check of the fields, \<open>Inr\<close> when the call to the provider is under way.
\<close>

definition handleAuthAction_start ::
  "lang_bundle \<Rightarrow> auth_action \<Rightarrow> auth_modal \<Rightarrow> auth_modal + auth_modal" where
  "handleAuthAction_start t action m =
     (if \<not> truthy (email m) \<or> \<not> truthy (password m)
      then Inl (m\<lparr>error := Some (errorFillFields t)\<rparr>)
      else
        (let m1 = m\<lparr>loading_modal := True, actionInProgress := Some action, error := None\<rparr>;
             call = (if action = Register
                     then CreateUserWithEmailAndPassword (email m1) (password m1)
                     else SignInWithEmailAndPassword (email m1) (password m1))
         in Inr (m1\<lparr>provider_calls := provider_calls m1 @ [call]\<rparr>)))"

text \<open>The rest of the \<open>try\<close>, the \<open>catch\<close> and the \<open>finally\<close>, once the provider has answered.\<close>

definition handleAuthAction_settle :: "lang_bundle \<Rightarrow> auth_response \<Rightarrow> auth_modal \<Rightarrow> auth_modal" where
  "handleAuthAction_settle t response m =
     (let m1 = (case response of
                  AuthOk \<Rightarrow> m\<lparr>onClose_calls := Suc (onClose_calls m)\<rparr>
                | AuthFails code \<Rightarrow>
                    (case handleFirebaseError t code of
                       (msg, logged) \<Rightarrow>
                         m\<lparr>error := Some msg,
                           modal_console := modal_console m @
                             (if logged then [''Unhandled Firebase Auth Error:''] else [])\<rparr>))
      in m1\<lparr>loading_modal := False, actionInProgress := None\<rparr>)"

definition handleAuthAction ::
  "lang_bundle \<Rightarrow> auth_response \<Rightarrow> auth_action \<Rightarrow> auth_modal \<Rightarrow> auth_modal" where
  "handleAuthAction t response action m =
     (case handleAuthAction_start t action m of
        Inl m1 \<Rightarrow> m1
      | Inr m1 \<Rightarrow> handleAuthAction_settle t response m1)"

section \<open>Example data\<close>

definition bundle_en :: lang_bundle where
  "bundle_en =
     \<lparr>translationActive = ''Translation active'',
      subtitleSamples = [''Hello'', ''Welcome back'', ''Thanks for watching''],
      errorFillFields = ''Please fill in all fields.'',
      errorEmailInUse = ''Email already in use.'',
      errorInvalidEmail = ''Invalid email.'',
      errorInvalidCredential = ''Invalid credentials.'',
      errorWeakPassword = ''Weak password.'',
      errorUnexpected = ''Unexpected error.''\<rparr>"

definition bundle_es :: lang_bundle where
  "bundle_es =
     \<lparr>translationActive = ''Traduccion activa'',
      subtitleSamples = [''Hola'', ''Bienvenido''],
      errorFillFields = ''Completa todos los campos.'',
      errorEmailInUse = ''Correo en uso.'',
      errorInvalidEmail = ''Correo invalido.'',
      errorInvalidCredential = ''Credenciales invalidas.'',
      errorWeakPassword = ''Contrasena debil.'',
      errorUnexpected = ''Error inesperado.''\<rparr>"

text \<open>A catalog with the keys \<open>en\<close> and \<open>es\<close>.\<close>

definition catalog0 :: catalog where
  "catalog0 = \<lparr>en = bundle_en, rest = [''es'' \<mapsto> bundle_es]\<rparr>"

text \<open>A locale the catalog does not support, and a geolocation service that fails.\<close>

definition env0 :: env where
  "env0 = \<lparr>get_fails = False, set_fails = False, navigator_language = ''fr-FR'', geo = GeoFails\<rparr>"

text \<open>A supported locale, and a geolocation service that answers.\<close>

definition env_us :: env where
  "env_us = \<lparr>get_fails = False, set_fails = False, navigator_language = ''en-US'',
             geo = GeoOk (Some ''BR'')\<rparr>"

text \<open>
  A durable store: \<open>u1\<close> has chosen \<open>es\<close>, \<open>u2\<close> has a record without a language,
  the record of \<open>u3\<close> names a language the catalog does not have.
\<close>

definition store0 :: "uid \<rightharpoonup> doc" where
  "store0 = [''u1'' \<mapsto> [''language'' \<mapsto> ''es'', ''plan'' \<mapsto> ''free''],
             ''u2'' \<mapsto> [''plan'' \<mapsto> ''pro''],
             ''u3'' \<mapsto> [''language'' \<mapsto> ''xx'']]"

definition local_none :: "string \<rightharpoonup> string" where
  "local_none = Map.empty"

definition local_es :: "string \<rightharpoonup> string" where
  "local_es = [''youvoix-lang'' \<mapsto> ''es'']"

definition local_en :: "string \<rightharpoonup> string" where
  "local_en = [''youvoix-lang'' \<mapsto> ''en'']"

text \<open>The first render with \<open>u\<close> already signed in.\<close>

definition signed_in :: "uid \<Rightarrow> (string \<rightharpoonup> string) \<Rightarrow> app" where
  "signed_in u local = (init_app store0 local)\<lparr>user := Some u, loading := False\<rparr>"

text \<open>The durable store cannot be read.\<close>

definition env_down :: env where
  "env_down = \<lparr>get_fails = True, set_fails = False, navigator_language = ''en-US'',
               geo = GeoOk (Some ''BR'')\<rparr>"

text \<open>The prompt with the password still empty.\<close>

definition modal0 :: auth_modal where
  "modal0 = \<lparr>email = ''ann@example.org'', password = [], loading_modal = False,
             actionInProgress = None, error = None, provider_calls = [], onClose_calls = 0,
             modal_console = []\<rparr>"

text \<open>The mounted overlay of a first-time visitor, and the events of a short session.\<close>

definition app0 :: app where
  "app0 = init_app store0 local_none"

definition login_u1 :: "event list" where
  "login_u1 = [AuthStateChanged (Some ''u1'')]"

section \<open>Invariants of the overlay\<close>

text \<open>
  The timers are the ones the component owns: handles are positive, below the next handle
  and pairwise different; a scheduled close is the one the ref names and has the delay
  5000; an interval is the one the subtitle effect holds and has the period 3000.
\<close>

definition timers_ok :: "app \<Rightarrow> bool" where
  "timers_ok s \<longleftrightarrow>
     0 < next_handle s
   \<and> (\<forall>t\<in>set (timers s). 0 < handle_of t \<and> handle_of t < next_handle s)
   \<and> distinct (map handle_of (timers s))
   \<and> (\<forall>h d. Timeout h d \<in> set (timers s) \<longrightarrow> inactivityTimerRef s = Some h \<and> d = 5000)
   \<and> (\<forall>h p. Interval h p \<in> set (timers s) \<longrightarrow> subtitleInterval s = Some h \<and> p = 3000)
   \<and> (\<forall>h. inactivityTimerRef s = Some h \<longrightarrow> h < next_handle s)
   \<and> (\<forall>h. subtitleInterval s = Some h \<longrightarrow> h < next_handle s)
   \<and> (\<forall>h. inactivityTimerRef s = Some h \<longrightarrow> subtitleInterval s \<noteq> Some h)"

text \<open>The subtitle effect has run for the current values of its dependencies.\<close>

definition subtitle_sync :: "app \<Rightarrow> bool" where
  "subtitle_sync s =
     (if user s \<noteq> None \<and> subtitlesEnabled s \<and> \<not> isTranslationStopped s
      then (\<exists>h. subtitleInterval s = Some h \<and> Interval h 3000 \<in> set (timers s))
      else subtitleInterval s = None \<and> currentSubtitle s = Some [])"

definition wf :: "app \<Rightarrow> bool" where
  "wf s \<longleftrightarrow> timers_ok s \<and> subtitle_sync s \<and> (\<not> isPanelOpen s \<longrightarrow> pending_closes s = [])"

text \<open>What the timer operations and the effects leave alone.\<close>

definition frame :: "app \<Rightarrow> app \<Rightarrow> bool" where
  "frame s s' \<longleftrightarrow>
     user s' = user s \<and> loading s' = loading s \<and> isAuthModalOpen s' = isAuthModalOpen s
   \<and> isPanelOpen s' = isPanelOpen s \<and> isSettingsOpen s' = isSettingsOpen s
   \<and> isTranslationStopped s' = isTranslationStopped s \<and> detectedLang s' = detectedLang s
   \<and> subtitlesEnabled s' = subtitlesEnabled s \<and> buttonStyle s' = buttonStyle s
   \<and> durable s' = durable s \<and> localStorage s' = localStorage s
   \<and> requests s' = requests s \<and> console s' = console s \<and> alerts s' = alerts s"

text \<open>What the handlers that schedule nothing leave alone.\<close>

definition same_timers :: "app \<Rightarrow> app \<Rightarrow> bool" where
  "same_timers s s' \<longleftrightarrow>
     timers s' = timers s \<and> next_handle s' = next_handle s
   \<and> inactivityTimerRef s' = inactivityTimerRef s \<and> subtitleInterval s' = subtitleInterval s
   \<and> currentSubtitle s' = currentSubtitle s"

section \<open>Properties of the preference resolver\<close>

lemmas ex_defs = signed_in_def init_app_def store0_def local_es_def local_en_def local_none_def
  env0_def env_us_def env_down_def catalog0_def translations_tbl_def

lemma priority1_fields:
  "priority1 e s = (r, s1) \<Longrightarrow>
     user s1 = user s \<and> durable s1 = durable s \<and> localStorage s1 = localStorage s
     \<and> detectedLang s1 = detectedLang s
     \<and> requests s1 = requests s @ (case user s of None \<Rightarrow> [] | Some u \<Rightarrow> [DurableGet u])"
  by (auto simp: priority1_def Let_def split: option.splits if_splits)

lemma priority3_fields:
  "priority3 c e s = (l, s1) \<Longrightarrow>
     user s1 = user s \<and> durable s1 = durable s \<and> localStorage s1 = localStorage s
     \<and> detectedLang s1 = detectedLang s
     \<and> requests s1 = requests s @
          (if translations_tbl c (primary_subtag (navigator_language e)) \<noteq> None
           then [] else [GeoFetch])"
  by (auto simp: priority3_def Let_def split: option.splits if_splits geo_result.splits)

text \<open>The language found by the third step does not depend on the state.\<close>

lemma priority3_lang_cong: "fst (priority3 c e s1) = fst (priority3 c e s)"
  by (auto simp: priority3_def Let_def split: option.splits if_splits geo_result.splits)

lemma priority3_console: "\<exists>extra. console (snd (priority3 c e s)) = console s @ extra"
  by (simp add: priority3_def Let_def split: geo_result.splits option.splits)

lemma priority1_None_user: "user s = None \<Longrightarrow> priority1 e s = (None, s)"
  by (simp add: priority1_def)

lemma priority1_get_fails:
  "user s = Some u \<Longrightarrow> get_fails e \<Longrightarrow>
   priority1 e s = (None, s\<lparr>requests := requests s @ [DurableGet u],
       console := console s @ [''Error fetching user profile from Firestore:'']\<rparr>)"
  by (simp add: priority1_def Let_def)

lemma write_back_fields:
  "detectedLang (write_back e l s) = detectedLang s \<and>
   console (write_back e l s) = console s \<and>
   requests (write_back e l s) =
     requests s @ (case user s of None \<Rightarrow> [] | Some u \<Rightarrow> [DurableSet u [''language'' \<mapsto> l]])"
  by (simp add: write_back_def Let_def split: option.splits)

text \<open>The three exits of a pass, in terms of its steps.\<close>

lemma loadUserProfile_unfold:
  assumes "priority1 e s = (r1, s1)" "priority3 c e s1 = (l, s2)"
  shows "loadUserProfile c e s =
     (case r1 of Some l1 \<Rightarrow> s1\<lparr>detectedLang := l1\<rparr>
      | None \<Rightarrow> (case priority2 c s of Some l2 \<Rightarrow> s1\<lparr>detectedLang := l2\<rparr>
          | None \<Rightarrow> write_back e l (s2\<lparr>detectedLang := l\<rparr>)))"
proof -
  have "priority2 c s1 = priority2 c s"
    using priority1_fields[OF assms(1)] by (simp add: priority2_def)
  then show ?thesis using assms
    by (simp add: loadUserProfile_def split: option.splits)
qed

lemma loadUserProfile_lang:
  "detectedLang (loadUserProfile c e s) =
     (case fst (priority1 e s) of Some l1 \<Rightarrow> l1
      | None \<Rightarrow> (case priority2 c s of Some l2 \<Rightarrow> l2 | None \<Rightarrow> fst (priority3 c e s)))"
proof -
  obtain r1 s1 where p1: "priority1 e s = (r1, s1)" by (cases "priority1 e s")
  obtain l3 s2 where p3: "priority3 c e s1 = (l3, s2)" by (cases "priority3 c e s1")
  have "fst (priority3 c e s) = l3" using p3 priority3_lang_cong[of c e s s1] by simp
  then show ?thesis using loadUserProfile_unfold[OF p1 p3] p1
    by (simp add: write_back_fields split: option.splits)
qed

text \<open>
  Claim C1.  The resolver follows the priority order.  When an identity is present and its
  durable record holds a supported language \<open>L\<close>, the effective language after the pass
  is \<open>L\<close>, whatever the local store, the locale and the geolocation service hold.  When
  no identity is present and the local store holds a supported code \<open>L\<close>, the effective
  language is \<open>L\<close>, whatever the locale and the geolocation service say.  (A language code
  is a non-empty string.)
\<close>

theorem C1_priority_order:
  "(user s = Some u \<and> \<not> get_fails e \<and> durable s u = Some d \<and> d ''language'' = Some L
      \<and> L \<noteq> [] \<and> translations_tbl c L \<noteq> None
     \<longrightarrow> detectedLang (loadUserProfile c e s) = L)
   \<and> (user s = None \<and> localStorage s ''youvoix-lang'' = Some L
      \<and> L \<noteq> [] \<and> translations_tbl c L \<noteq> None
     \<longrightarrow> detectedLang (loadUserProfile c e s) = L)"
  by (simp add: loadUserProfile_def priority1_def priority2_def truthy_def)

theorem C1_priority_order_witness:
  "user (signed_in ''u1'' local_en) = Some ''u1'' \<and> \<not> get_fails env_us
   \<and> durable (signed_in ''u1'' local_en) ''u1''
        = Some [''language'' \<mapsto> ''es'', ''plan'' \<mapsto> ''free'']
   \<and> translations_tbl catalog0 ''es'' \<noteq> None
   \<and> detectedLang (loadUserProfile catalog0 env_us (signed_in ''u1'' local_en)) = ''es''
   \<and> user (init_app store0 local_es) = None
   \<and> localStorage (init_app store0 local_es) ''youvoix-lang'' = Some ''es''
   \<and> detectedLang (loadUserProfile catalog0 env_us (init_app store0 local_es)) = ''es''"
proof -
  have h1: "user (signed_in ''u1'' local_en) = Some ''u1'' \<and> \<not> get_fails env_us
   \<and> durable (signed_in ''u1'' local_en) ''u1''
        = Some [''language'' \<mapsto> ''es'', ''plan'' \<mapsto> ''free'']
   \<and> [''language'' \<mapsto> ''es'', ''plan'' \<mapsto> ''free''] ''language'' = Some ''es''
   \<and> ''es'' \<noteq> [] \<and> translations_tbl catalog0 ''es'' \<noteq> None"
    by (simp add: ex_defs)
  have h2: "user (init_app store0 local_es) = None
   \<and> localStorage (init_app store0 local_es) ''youvoix-lang'' = Some ''es''
   \<and> ''es'' \<noteq> [] \<and> translations_tbl catalog0 ''es'' \<noteq> None"
    by (simp add: ex_defs)
  from C1_priority_order[of "signed_in ''u1'' local_en" "''u1''" env_us
        "[''language'' \<mapsto> ''es'', ''plan'' \<mapsto> ''free'']" "''es''" catalog0] h1
  have a: "detectedLang (loadUserProfile catalog0 env_us (signed_in ''u1'' local_en)) = ''es''"
    by blast
  from C1_priority_order[of "init_app store0 local_es" _ env_us _ "''es''" catalog0] h2
  have b: "detectedLang (loadUserProfile catalog0 env_us (init_app store0 local_es)) = ''es''"
    by blast
  show ?thesis using h1 h2 a b by blast
qed

text \<open>
  Claim C2.  In step 1 the code of the durable record should be adopted only if it is a
  supported language code, and resolution should continue otherwise.  The code adopts
  every non-empty value: for \<open>u3\<close>, whose record names the language \<open>xx\<close> that the
  catalog does not have, the effective language becomes \<open>xx\<close>, although the local store
  holds the supported code \<open>es\<close> that the next step would have adopted.
\<close>

theorem C2_unsupported_durable_code_adopted:
  "translations_tbl catalog0 ''xx'' = None
   \<and> priority2 catalog0 (signed_in ''u3'' local_es) = Some ''es''
   \<and> detectedLang (loadUserProfile catalog0 env_us (signed_in ''u3'' local_es)) = ''xx''"
  by (simp add: ex_defs loadUserProfile_def priority1_def priority2_def truthy_def)

text \<open>
  Claim C4, as stated: whenever an identity is present and the language was not adopted
  from the durable record, the resolved code is written back.  It fails when the language
  comes from the local store: for \<open>u2\<close>, whose record has no language, with \<open>es\<close>
  in the local store, the pass resolves \<open>es\<close>, sends nothing but the read, and leaves the
  durable store as it was.
\<close>

theorem C4_local_store_counterexample:
  "user (signed_in ''u2'' local_es) = Some ''u2''
   \<and> fst (priority1 env_us (signed_in ''u2'' local_es)) = None
   \<and> detectedLang (loadUserProfile catalog0 env_us (signed_in ''u2'' local_es)) = ''es''
   \<and> requests (loadUserProfile catalog0 env_us (signed_in ''u2'' local_es)) = [DurableGet ''u2'']
   \<and> durable (loadUserProfile catalog0 env_us (signed_in ''u2'' local_es)) = store0"
  by (simp add: ex_defs loadUserProfile_def priority1_def priority2_def truthy_def)

text \<open>
  Claim C4, amended.  When an identity is present and neither its durable record nor the
  local store resolves the language, the code found by detection (locale, geolocation or
  the default) is written back: the pass ends with one merging write of
  \<open>{language: code}\<close> to the record of the identity, and when the store accepts it the
  record has that language, keeps its other fields, and the records of other identities
  are untouched.  When the local store resolves the language, nothing is written.
\<close>

theorem C4_write_back_after_detection:
  "(user s = Some u \<and> fst (priority1 e s) = None \<and> priority2 c s = None \<longrightarrow>
      requests (loadUserProfile c e s)
        = requests s @ [DurableGet u]
          @ (if translations_tbl c (primary_subtag (navigator_language e)) \<noteq> None
             then [] else [GeoFetch])
          @ [DurableSet u [''language'' \<mapsto> detectedLang (loadUserProfile c e s)]]
      \<and> (\<not> set_fails e \<longrightarrow>
            (\<forall>u'. u' \<noteq> u \<longrightarrow> durable (loadUserProfile c e s) u' = durable s u')
          \<and> (\<exists>d'. durable (loadUserProfile c e s) u = Some d'
                \<and> d' ''language'' = Some (detectedLang (loadUserProfile c e s))
                \<and> (\<forall>f. f \<noteq> ''language'' \<longrightarrow>
                      d' f = (case durable s u of None \<Rightarrow> None | Some d \<Rightarrow> d f)))))
   \<and> (user s = Some u \<and> fst (priority1 e s) = None \<and> priority2 c s = Some l \<longrightarrow>
        detectedLang (loadUserProfile c e s) = l
      \<and> requests (loadUserProfile c e s) = requests s @ [DurableGet u]
      \<and> durable (loadUserProfile c e s) = durable s)"
proof -
  obtain r1 s1 where p1: "priority1 e s = (r1, s1)" by (cases "priority1 e s")
  obtain l3 s2 where p3: "priority3 c e s1 = (l3, s2)" by (cases "priority3 c e s1")
  note f1 = priority1_fields[OF p1]
  note f3 = priority3_fields[OF p3]
  note U = loadUserProfile_unfold[OF p1 p3]
  have A: "requests (loadUserProfile c e s)
        = requests s @ [DurableGet u]
          @ (if translations_tbl c (primary_subtag (navigator_language e)) \<noteq> None
             then [] else [GeoFetch])
          @ [DurableSet u [''language'' \<mapsto> detectedLang (loadUserProfile c e s)]]
      \<and> (\<not> set_fails e \<longrightarrow>
            (\<forall>u'. u' \<noteq> u \<longrightarrow> durable (loadUserProfile c e s) u' = durable s u')
          \<and> (\<exists>d'. durable (loadUserProfile c e s) u = Some d'
                \<and> d' ''language'' = Some (detectedLang (loadUserProfile c e s))
                \<and> (\<forall>f. f \<noteq> ''language'' \<longrightarrow>
                      d' f = (case durable s u of None \<Rightarrow> None | Some d \<Rightarrow> d f))))"
    if h: "user s = Some u" "fst (priority1 e s) = None" "priority2 c s = None"
  proof -
    have L: "loadUserProfile c e s = write_back e l3 (s2\<lparr>detectedLang := l3\<rparr>)"
      using U p1 h by simp
    have u2: "user s2 = Some u" "durable s2 = durable s"
      "requests s2 = requests s @ [DurableGet u]
          @ (if translations_tbl c (primary_subtag (navigator_language e)) \<noteq> None
             then [] else [GeoFetch])"
      using f1 f3 h by simp_all
    show ?thesis unfolding L using u2
      by (auto simp: write_back_def Let_def merge_set_def map_add_def split: option.splits)
  qed
  have B: "detectedLang (loadUserProfile c e s) = l
      \<and> requests (loadUserProfile c e s) = requests s @ [DurableGet u]
      \<and> durable (loadUserProfile c e s) = durable s"
    if h: "user s = Some u" "fst (priority1 e s) = None" "priority2 c s = Some l"
  proof -
    have L: "loadUserProfile c e s = s1\<lparr>detectedLang := l\<rparr>"
      using U p1 h by simp
    show ?thesis unfolding L using f1 h by simp
  qed
  show ?thesis using A B by blast
qed

theorem C4_write_back_after_detection_witness:
  "user (signed_in ''u2'' local_none) = Some ''u2''
   \<and> fst (priority1 env0 (signed_in ''u2'' local_none)) = None
   \<and> priority2 catalog0 (signed_in ''u2'' local_none) = None
   \<and> \<not> set_fails env0
   \<and> detectedLang (loadUserProfile catalog0 env0 (signed_in ''u2'' local_none)) = ''en''
   \<and> requests (loadUserProfile catalog0 env0 (signed_in ''u2'' local_none))
        = [DurableGet ''u2'', GeoFetch, DurableSet ''u2'' [''language'' \<mapsto> ''en'']]
   \<and> durable (loadUserProfile catalog0 env0 (signed_in ''u2'' local_none)) ''u1'' = store0 ''u1''
   \<and> user (signed_in ''u2'' local_es) = Some ''u2''
   \<and> fst (priority1 env0 (signed_in ''u2'' local_es)) = None
   \<and> priority2 catalog0 (signed_in ''u2'' local_es) = Some ''es''
   \<and> durable (loadUserProfile catalog0 env0 (signed_in ''u2'' local_es))
        = durable (signed_in ''u2'' local_es)"
proof -
  have h1: "user (signed_in ''u2'' local_none) = Some ''u2''
   \<and> fst (priority1 env0 (signed_in ''u2'' local_none)) = None
   \<and> priority2 catalog0 (signed_in ''u2'' local_none) = None"
    by (simp add: ex_defs priority1_def priority2_def)
  have h2: "user (signed_in ''u2'' local_es) = Some ''u2''
   \<and> fst (priority1 env0 (signed_in ''u2'' local_es)) = None
   \<and> priority2 catalog0 (signed_in ''u2'' local_es) = Some ''es''"
    by (simp add: ex_defs priority1_def priority2_def truthy_def)
  have h3: "\<not> set_fails env0" "''u1'' \<noteq> ''u2''" by (simp_all add: env0_def)
  have l: "detectedLang (loadUserProfile catalog0 env0 (signed_in ''u2'' local_none)) = ''en''"
    by (simp add: ex_defs loadUserProfile_def priority1_def priority2_def priority3_def
          primary_subtag_def write_back_def Let_def)
  have nl: "translations_tbl catalog0 (primary_subtag (navigator_language env0)) = None"
    by (simp add: primary_subtag_def ex_defs)
  have d: "durable (signed_in ''u2'' local_none) ''u1'' = store0 ''u1''"
    "requests (signed_in ''u2'' local_none) = []"
    by (simp_all add: signed_in_def init_app_def)
  note T1 = C4_write_back_after_detection[of "signed_in ''u2'' local_none" "''u2''" env0 catalog0]
  note T2 = C4_write_back_after_detection[of "signed_in ''u2'' local_es" "''u2''" env0 catalog0 "''es''"]
  have a: "requests (loadUserProfile catalog0 env0 (signed_in ''u2'' local_none))
        = [DurableGet ''u2'', GeoFetch, DurableSet ''u2'' [''language'' \<mapsto> ''en'']]"
    using T1 h1 l nl d by simp
  have b: "durable (loadUserProfile catalog0 env0 (signed_in ''u2'' local_none)) ''u1'' = store0 ''u1''"
    using T1 h1 h3 d by simp
  have c: "durable (loadUserProfile catalog0 env0 (signed_in ''u2'' local_es))
        = durable (signed_in ''u2'' local_es)"
    using T2 h2 by blast
  show ?thesis using h1 h2 h3 l a b c by simp
qed


text \<open>
  Claim C5.  The geolocation service is asked only when no earlier signal resolves the
  language: a pass sends one geolocation request when the durable record, the local store
  and the primary subtag of the locale all resolve nothing, and none otherwise.  For an
  absent identity with nothing usable in the local store, a supported locale subtag is
  chosen and the pass sends no request at all.  When the one lookup fails, the failure is
  swallowed and the resolved language is the default \<open>en\<close>.
\<close>

theorem C5_geolocation_only_as_last_resort:
  "(length (filter (\<lambda>r. r = GeoFetch) (requests (loadUserProfile c e s)))
      = length (filter (\<lambda>r. r = GeoFetch) (requests s))
        + (if fst (priority1 e s) \<noteq> None \<or> priority2 c s \<noteq> None
              \<or> translations_tbl c (primary_subtag (navigator_language e)) \<noteq> None
           then 0 else 1))
   \<and> (user s = None \<and> priority2 c s = None
        \<and> translations_tbl c (primary_subtag (navigator_language e)) \<noteq> None
       \<longrightarrow> requests (loadUserProfile c e s) = requests s
           \<and> detectedLang (loadUserProfile c e s) = primary_subtag (navigator_language e))
   \<and> (fst (priority1 e s) = None \<and> priority2 c s = None
        \<and> translations_tbl c (primary_subtag (navigator_language e)) = None
        \<and> geo e = GeoFails
       \<longrightarrow> detectedLang (loadUserProfile c e s) = ''en'')"
proof -
  obtain r1 s1 where p1: "priority1 e s = (r1, s1)" by (cases "priority1 e s")
  obtain l s2 where p3: "priority3 c e s1 = (l, s2)" by (cases "priority3 c e s1")
  note f1 = priority1_fields[OF p1]
  note f3 = priority3_fields[OF p3]
  note U = loadUserProfile_unfold[OF p1 p3]
  have l_locale: "translations_tbl c (primary_subtag (navigator_language e)) \<noteq> None
      \<Longrightarrow> l = primary_subtag (navigator_language e)"
    using p3 by (simp add: priority3_def Let_def)
  have l_fail: "translations_tbl c (primary_subtag (navigator_language e)) = None
      \<Longrightarrow> geo e = GeoFails \<Longrightarrow> l = ''en''"
    using p3 by (simp add: priority3_def Let_def)
  have r1_None: "user s = None \<Longrightarrow> r1 = None \<and> s1 = s"
    using p1 by (simp add: priority1_None_user)
  have req1: "length (filter (\<lambda>r. r = GeoFetch) (requests s1))
      = length (filter (\<lambda>r. r = GeoFetch) (requests s))"
    using f1 by (simp split: option.splits)
  have req_wb: "length (filter (\<lambda>r. r = GeoFetch)
          (requests (write_back e l (s2\<lparr>detectedLang := l\<rparr>))))
        = length (filter (\<lambda>r. r = GeoFetch) (requests s2))"
    by (simp add: write_back_fields split: option.splits)
  have req3: "length (filter (\<lambda>r. r = GeoFetch) (requests s2))
      = length (filter (\<lambda>r. r = GeoFetch) (requests s))
      + (if translations_tbl c (primary_subtag (navigator_language e)) \<noteq> None then 0 else 1)"
    using f3 req1 by simp
  have part1: "length (filter (\<lambda>r. r = GeoFetch) (requests (loadUserProfile c e s)))
      = length (filter (\<lambda>r. r = GeoFetch) (requests s))
        + (if fst (priority1 e s) \<noteq> None \<or> priority2 c s \<noteq> None
              \<or> translations_tbl c (primary_subtag (navigator_language e)) \<noteq> None
           then 0 else 1)"
  proof (cases r1)
    case (Some l1)
    then show ?thesis using U p1 req1 by simp
  next
    case None
    show ?thesis
    proof (cases "priority2 c s")
      case (Some l2)
      then show ?thesis using U None p1 req1 by simp
    next
      case N2: None
      have "loadUserProfile c e s = write_back e l (s2\<lparr>detectedLang := l\<rparr>)"
        using U None N2 by simp
      then show ?thesis using req_wb req3 None N2 p1 by simp
    qed
  qed
  have part2: "requests (loadUserProfile c e s) = requests s
           \<and> detectedLang (loadUserProfile c e s) = primary_subtag (navigator_language e)"
    if "user s = None" "priority2 c s = None"
       "translations_tbl c (primary_subtag (navigator_language e)) \<noteq> None"
  proof -
    have "loadUserProfile c e s = write_back e l (s2\<lparr>detectedLang := l\<rparr>)"
      using U r1_None that by simp
    moreover have "requests s2 = requests s" "user s2 = None"
      using f3 r1_None that by simp_all
    ultimately show ?thesis using l_locale that
      by (simp add: write_back_def)
  qed
  have part3: "detectedLang (loadUserProfile c e s) = ''en''"
    if "fst (priority1 e s) = None" "priority2 c s = None"
       "translations_tbl c (primary_subtag (navigator_language e)) = None" "geo e = GeoFails"
  proof -
    have "loadUserProfile c e s = write_back e l (s2\<lparr>detectedLang := l\<rparr>)"
      using U p1 that by simp
    then show ?thesis using l_fail that by (simp add: write_back_fields)
  qed
  show ?thesis using part1 part2 part3 by blast
qed

theorem C5_geolocation_only_as_last_resort_witness:
  "user (init_app store0 local_none) = None
   \<and> priority2 catalog0 (init_app store0 local_none) = None
   \<and> translations_tbl catalog0 (primary_subtag (navigator_language env_us)) \<noteq> None
   \<and> requests (loadUserProfile catalog0 env_us (init_app store0 local_none)) = []
   \<and> detectedLang (loadUserProfile catalog0 env_us (init_app store0 local_none)) = ''en''
   \<and> fst (priority1 env0 (signed_in ''u2'' local_none)) = None
   \<and> priority2 catalog0 (signed_in ''u2'' local_none) = None
   \<and> translations_tbl catalog0 (primary_subtag (navigator_language env0)) = None
   \<and> geo env0 = GeoFails
   \<and> detectedLang (loadUserProfile catalog0 env0 (signed_in ''u2'' local_none)) = ''en''
   \<and> length (filter (\<lambda>r. r = GeoFetch)
        (requests (loadUserProfile catalog0 env0 (signed_in ''u2'' local_none)))) = 1"
proof -
  have h1: "user (init_app store0 local_none) = None
   \<and> priority2 catalog0 (init_app store0 local_none) = None
   \<and> translations_tbl catalog0 (primary_subtag (navigator_language env_us)) \<noteq> None"
    by (simp add: ex_defs priority2_def primary_subtag_def)
  have h2: "fst (priority1 env0 (signed_in ''u2'' local_none)) = None
   \<and> priority2 catalog0 (signed_in ''u2'' local_none) = None
   \<and> translations_tbl catalog0 (primary_subtag (navigator_language env0)) = None
   \<and> geo env0 = GeoFails"
    by (simp add: ex_defs priority1_def priority2_def primary_subtag_def)
  have e: "requests (init_app store0 local_none) = []"
    "requests (signed_in ''u2'' local_none) = []"
    "primary_subtag (navigator_language env_us) = ''en''"
    by (simp_all add: signed_in_def init_app_def env_us_def primary_subtag_def)
  note T1 = C5_geolocation_only_as_last_resort[of catalog0 env_us "init_app store0 local_none"]
  note T2 = C5_geolocation_only_as_last_resort[of catalog0 env0 "signed_in ''u2'' local_none"]
  have a: "requests (loadUserProfile catalog0 env_us (init_app store0 local_none)) = []
   \<and> detectedLang (loadUserProfile catalog0 env_us (init_app store0 local_none)) = ''en''"
    using T1 h1 e by simp
  have b: "detectedLang (loadUserProfile catalog0 env0 (signed_in ''u2'' local_none)) = ''en''"
    using T2 h2 by blast
  have c: "length (filter (\<lambda>r. r = GeoFetch)
        (requests (loadUserProfile catalog0 env0 (signed_in ''u2'' local_none)))) = 1"
    using T2 h2 e by simp
  show ?thesis using h1 h2 a b c by simp
qed

text \<open>
  Claim C10.  When the read of the durable record fails, the error is caught and logged,
  and the pass goes on with the next steps: the effective language is the one of the
  local store if it holds a supported code, and else the one that the locale, the
  geolocation lookup or the default yields; it is the language the same pass finds for a
  visitor without identity.
\<close>

theorem C10_durable_read_failure_falls_through:
  "user s = Some u \<and> get_fails e \<longrightarrow>
     detectedLang (loadUserProfile c e s)
       = (case priority2 c s of Some l \<Rightarrow> l | None \<Rightarrow> fst (priority3 c e s))
   \<and> detectedLang (loadUserProfile c e s) = detectedLang (loadUserProfile c e (s\<lparr>user := None\<rparr>))
   \<and> ''Error fetching user profile from Firestore:'' \<in> set (console (loadUserProfile c e s))"
proof (intro impI)
  assume h: "user s = Some u \<and> get_fails e"
  let ?s1 = "s\<lparr>requests := requests s @ [DurableGet u],
       console := console s @ [''Error fetching user profile from Firestore:'']\<rparr>"
  have p1: "priority1 e s = (None, ?s1)" using h by (simp add: priority1_get_fails)
  have a: "detectedLang (loadUserProfile c e s)
       = (case priority2 c s of Some l \<Rightarrow> l | None \<Rightarrow> fst (priority3 c e s))"
    using p1 by (simp add: loadUserProfile_lang)
  have p2: "priority2 c (s\<lparr>user := None\<rparr>) = priority2 c s" by (simp add: priority2_def)
  have b: "detectedLang (loadUserProfile c e (s\<lparr>user := None\<rparr>))
       = (case priority2 c s of Some l \<Rightarrow> l | None \<Rightarrow> fst (priority3 c e s))"
    using priority3_lang_cong[of c e "s\<lparr>user := None\<rparr>" s]
    by (simp add: loadUserProfile_lang priority1_None_user p2 split: option.splits)
  obtain l3 s2 where p3: "priority3 c e ?s1 = (l3, s2)" by (cases "priority3 c e ?s1")
  obtain extra where ex: "console s2 = console ?s1 @ extra"
    using priority3_console[of c e ?s1] p3 by auto
  have cw: "console (write_back e l3 (s2\<lparr>detectedLang := l3\<rparr>)) = console s2"
    by (simp add: write_back_fields)
  have c: "''Error fetching user profile from Firestore:'' \<in> set (console (loadUserProfile c e s))"
    using loadUserProfile_unfold[OF p1 p3] ex cw
    by (auto split: option.splits)
  show "detectedLang (loadUserProfile c e s)
       = (case priority2 c s of Some l \<Rightarrow> l | None \<Rightarrow> fst (priority3 c e s))
   \<and> detectedLang (loadUserProfile c e s) = detectedLang (loadUserProfile c e (s\<lparr>user := None\<rparr>))
   \<and> ''Error fetching user profile from Firestore:'' \<in> set (console (loadUserProfile c e s))"
    using a b c by simp
qed

theorem C10_durable_read_failure_falls_through_witness:
  "user (signed_in ''u1'' local_none) = Some ''u1'' \<and> get_fails env_down
   \<and> detectedLang (loadUserProfile catalog0 env_down (signed_in ''u1'' local_none)) = ''en''
   \<and> user (signed_in ''u1'' local_es) = Some ''u1''
   \<and> detectedLang (loadUserProfile catalog0 env_down (signed_in ''u1'' local_es)) = ''es''"
proof -
  have h: "user (signed_in ''u1'' local_none) = Some ''u1'' \<and> get_fails env_down"
     "user (signed_in ''u1'' local_es) = Some ''u1'' \<and> get_fails env_down"
    by (simp_all add: signed_in_def env_down_def)
  have e: "priority2 catalog0 (signed_in ''u1'' local_none) = None"
    "fst (priority3 catalog0 env_down (signed_in ''u1'' local_none)) = ''en''"
    "priority2 catalog0 (signed_in ''u1'' local_es) = Some ''es''"
    by (simp_all add: ex_defs env_down_def priority2_def priority3_def primary_subtag_def
          truthy_def Let_def)
  have a: "detectedLang (loadUserProfile catalog0 env_down (signed_in ''u1'' local_none)) = ''en''"
    using C10_durable_read_failure_falls_through[of "signed_in ''u1'' local_none" "''u1''" env_down catalog0]
      h(1) e by simp
  have b: "detectedLang (loadUserProfile catalog0 env_down (signed_in ''u1'' local_es)) = ''es''"
    using C10_durable_read_failure_falls_through[of "signed_in ''u1'' local_es" "''u1''" env_down catalog0]
      h(2) e by simp
  show ?thesis using h a b by simp
qed

section \<open>Properties of the draggable button\<close>

lemma onMouseMove_effect:
  "onMouseMove m (d, s) = (d', s') \<Longrightarrow>
     s' = s\<lparr>buttonStyle := buttonStyle s'\<rparr> \<and> d' = d\<lparr>hasMoved := hasMoved d'\<rparr>
     \<and> (hasMoved d' \<longleftrightarrow> hasMoved d \<or> \<bar>fst m - startX d\<bar> > 5 \<or> \<bar>snd m - startY d\<bar> > 5)"
  by (auto simp: onMouseMove_def Let_def split: if_splits)

lemma drag_moves_effect:
  "drag_moves moves (d, s) = (d', s') \<Longrightarrow>
     s' = s\<lparr>buttonStyle := buttonStyle s'\<rparr> \<and> d' = d\<lparr>hasMoved := hasMoved d'\<rparr>
     \<and> (hasMoved d' \<longleftrightarrow> hasMoved d \<or> (\<exists>m\<in>set moves. \<bar>fst m - startX d\<bar> > 5 \<or> \<bar>snd m - startY d\<bar> > 5))"
proof (induction moves arbitrary: d s)
  case Nil
  then show ?case by (simp add: drag_moves_def)
next
  case (Cons m moves)
  obtain d1 s1 where st: "onMouseMove m (d, s) = (d1, s1)" by (cases "onMouseMove m (d, s)")
  from Cons.prems have rest: "drag_moves moves (d1, s1) = (d', s')"
    by (simp add: drag_moves_def st)
  note A = onMouseMove_effect[OF st]
  note B = Cons.IH[OF rest]
  have s1: "s1 = s\<lparr>buttonStyle := buttonStyle s1\<rparr>" and d1: "d1 = d\<lparr>hasMoved := hasMoved d1\<rparr>"
    using A[THEN conjunct1] A[THEN conjunct2, THEN conjunct1] by this+
  have s': "s' = s1\<lparr>buttonStyle := buttonStyle s'\<rparr>" and d': "d' = d1\<lparr>hasMoved := hasMoved d'\<rparr>"
    using B[THEN conjunct1] B[THEN conjunct2, THEN conjunct1] by this+
  have e1: "s' = s\<lparr>buttonStyle := buttonStyle s'\<rparr>"
    by (subst s', subst s1) simp
  have e2: "d' = d\<lparr>hasMoved := hasMoved d'\<rparr>"
    by (subst d', subst d1) simp
  have st1: "startX d1 = startX d" "startY d1 = startY d"
    by (subst d1, simp)+
  have e3: "hasMoved d' \<longleftrightarrow> hasMoved d \<or> (\<exists>m\<in>set (m # moves). \<bar>fst m - startX d\<bar> > 5 \<or> \<bar>snd m - startY d\<bar> > 5)"
    using A B st1 by auto
  show ?case using e1 e2 e3 by blast
qed

lemma gesture_unfold:
  assumes "drag_moves moves (\<lparr>hasMoved = False, startX = fst e, startY = snd e,
                startLeft = fst b, startTop = snd b, drag_user = user s\<rparr>, s) = (d1, s1)"
  shows "gesture e (Some b) moves s = onMouseUp d1 s1"
    and "gesture_actions e (Some b) moves s = onMouseUp_actions d1"
  using assms by (cases b; simp add: gesture_def gesture_actions_def handleDrag_def)+

text \<open>
  Claim C6.  For every sequence pointer-down, moves, pointer-up on the floating control:
  if some move is more than 5 px away from the start on an axis, the pointer-up does
  nothing, so the panel is not toggled and the authentication prompt is not opened;
  otherwise it does exactly one thing, toggling the panel when an identity is present and
  opening the prompt when none is.
\<close>

theorem C6_drag_or_click:
  "((\<exists>m\<in>set moves. \<bar>fst m - fst e\<bar> > 5 \<or> \<bar>snd m - snd e\<bar> > 5) \<longrightarrow>
       gesture_actions e (Some b) moves s = []
     \<and> isPanelOpen (gesture e (Some b) moves s) = isPanelOpen s
     \<and> isAuthModalOpen (gesture e (Some b) moves s) = isAuthModalOpen s)
   \<and> (\<not> (\<exists>m\<in>set moves. \<bar>fst m - fst e\<bar> > 5 \<or> \<bar>snd m - snd e\<bar> > 5) \<longrightarrow>
       (user s \<noteq> None \<longrightarrow>
          gesture_actions e (Some b) moves s = [TogglePanel]
        \<and> isPanelOpen (gesture e (Some b) moves s) = (\<not> isPanelOpen s)
        \<and> isAuthModalOpen (gesture e (Some b) moves s) = isAuthModalOpen s)
     \<and> (user s = None \<longrightarrow>
          gesture_actions e (Some b) moves s = [OpenAuthModal]
        \<and> isAuthModalOpen (gesture e (Some b) moves s)
        \<and> isPanelOpen (gesture e (Some b) moves s) = isPanelOpen s))"
proof -
  let ?d0 = "\<lparr>hasMoved = False, startX = fst e, startY = snd e,
                startLeft = fst b, startTop = snd b, drag_user = user s\<rparr>"
  obtain d1 s1 where dm: "drag_moves moves (?d0, s) = (d1, s1)"
    by (cases "drag_moves moves (?d0, s)")
  note E = drag_moves_effect[OF dm]
  have s1: "s1 = s\<lparr>buttonStyle := buttonStyle s1\<rparr>" using E[THEN conjunct1] .
  have d1: "d1 = ?d0\<lparr>hasMoved := hasMoved d1\<rparr>" using E[THEN conjunct2, THEN conjunct1] .
  have hm: "hasMoved d1 \<longleftrightarrow> (\<exists>m\<in>set moves. \<bar>fst m - fst e\<bar> > 5 \<or> \<bar>snd m - snd e\<bar> > 5)"
    using E[THEN conjunct2, THEN conjunct2] by simp
  have du: "drag_user d1 = user s" by (subst d1) simp
  have p: "isPanelOpen s1 = isPanelOpen s" "isAuthModalOpen s1 = isAuthModalOpen s"
    by (subst s1, simp)+
  note G = gesture_unfold[OF dm]
  show ?thesis
    unfolding G using hm du p
    by (auto simp: onMouseUp_def onMouseUp_actions_def)
qed

theorem C6_drag_or_click_witness:
  "(\<exists>m\<in>set [(103, 100), (120, 131)]. \<bar>fst m - fst (100::int, 100::int)\<bar> > 5 \<or> \<bar>snd m - snd (100::int, 100::int)\<bar> > 5)
   \<and> gesture_actions (100, 100) (Some (800, 600)) [(103, 100), (120, 131)] (signed_in ''u1'' local_none) = []
   \<and> \<not> (\<exists>m\<in>set [(103, 100), (105, 95)]. \<bar>fst m - fst (100::int, 100::int)\<bar> > 5 \<or> \<bar>snd m - snd (100::int, 100::int)\<bar> > 5)
   \<and> user (signed_in ''u1'' local_none) \<noteq> None
   \<and> gesture_actions (100, 100) (Some (800, 600)) [(103, 100), (105, 95)] (signed_in ''u1'' local_none) = [TogglePanel]
   \<and> isPanelOpen (gesture (100, 100) (Some (800, 600)) [(103, 100), (105, 95)] (signed_in ''u1'' local_none))
   \<and> user ((init_app store0 local_none)\<lparr>loading := False\<rparr>) = None
   \<and> gesture_actions (100, 100) (Some (800, 600)) [(103, 100), (105, 95)] ((init_app store0 local_none)\<lparr>loading := False\<rparr>) = [OpenAuthModal]
   \<and> isAuthModalOpen (gesture (100, 100) (Some (800, 600)) [(103, 100), (105, 95)] ((init_app store0 local_none)\<lparr>loading := False\<rparr>))"
proof -
  have h1: "\<exists>m\<in>set [(103, 100), (120, 131)]. \<bar>fst m - fst (100::int, 100::int)\<bar> > 5 \<or> \<bar>snd m - snd (100::int, 100::int)\<bar> > 5"
    by simp
  have h2: "\<not> (\<exists>m\<in>set [(103, 100), (105, 95)]. \<bar>fst m - fst (100::int, 100::int)\<bar> > 5 \<or> \<bar>snd m - snd (100::int, 100::int)\<bar> > 5)"
    by simp
  have h3: "user (signed_in ''u1'' local_none) \<noteq> None" "\<not> isPanelOpen (signed_in ''u1'' local_none)"
    "user ((init_app store0 local_none)\<lparr>loading := False\<rparr>) = None"
    by (simp_all add: signed_in_def init_app_def)
  note T1 = C6_drag_or_click[of "[(103, 100), (120, 131)]" "(100, 100)" "(800, 600)" "signed_in ''u1'' local_none"]
  note T2 = C6_drag_or_click[of "[(103, 100), (105, 95)]" "(100, 100)" "(800, 600)" "signed_in ''u1'' local_none"]
  note T3 = C6_drag_or_click[of "[(103, 100), (105, 95)]" "(100, 100)" "(800, 600)" "(init_app store0 local_none)\<lparr>loading := False\<rparr>"]
  have a: "gesture_actions (100, 100) (Some (800, 600)) [(103, 100), (120, 131)] (signed_in ''u1'' local_none) = []"
    using T1 h1 by blast
  have b: "gesture_actions (100, 100) (Some (800, 600)) [(103, 100), (105, 95)] (signed_in ''u1'' local_none) = [TogglePanel]
     \<and> isPanelOpen (gesture (100, 100) (Some (800, 600)) [(103, 100), (105, 95)] (signed_in ''u1'' local_none))"
    using T2 h2 h3 by blast
  have c: "gesture_actions (100, 100) (Some (800, 600)) [(103, 100), (105, 95)] ((init_app store0 local_none)\<lparr>loading := False\<rparr>) = [OpenAuthModal]
     \<and> isAuthModalOpen (gesture (100, 100) (Some (800, 600)) [(103, 100), (105, 95)] ((init_app store0 local_none)\<lparr>loading := False\<rparr>))"
    using T3 h2 h3 by blast
  show ?thesis using h1 h2 h3 a b c by blast
qed

section \<open>Properties of the authentication prompt\<close>

text \<open>
  Claim C9.  Submitting with an empty email or an empty password only sets the inline
  message for missing fields and calls the identity provider not at all.  With both fields
  filled, the call for the chosen action is made, the in-flight flag is set while it runs
  and is cleared when the handler is done, whether the provider succeeded or failed.
\<close>

theorem C9_auth_action:
  "(email m = [] \<or> password m = [] \<longrightarrow>
       handleAuthAction t response action m = m\<lparr>error := Some (errorFillFields t)\<rparr>
     \<and> provider_calls (handleAuthAction t response action m) = provider_calls m)
   \<and> (email m \<noteq> [] \<and> password m \<noteq> [] \<longrightarrow>
       provider_calls (handleAuthAction t response action m)
         = provider_calls m @ [if action = Register
                               then CreateUserWithEmailAndPassword (email m) (password m)
                               else SignInWithEmailAndPassword (email m) (password m)]
     \<and> \<not> loading_modal (handleAuthAction t response action m)
     \<and> actionInProgress (handleAuthAction t response action m) = None
     \<and> (\<exists>m1. handleAuthAction_start t action m = Inr m1 \<and> loading_modal m1
              \<and> actionInProgress m1 = Some action))"
  by (cases response)
     (simp_all add: handleAuthAction_def handleAuthAction_start_def handleAuthAction_settle_def
        truthy_def Let_def split: prod.splits)

theorem C9_auth_action_witness:
  "(email modal0 = [] \<or> password modal0 = [])
   \<and> error (handleAuthAction bundle_en AuthOk Login modal0) = Some ''Please fill in all fields.''
   \<and> provider_calls (handleAuthAction bundle_en AuthOk Login modal0) = []
   \<and> email (modal0\<lparr>password := ''pw''\<rparr>) \<noteq> [] \<and> password (modal0\<lparr>password := ''pw''\<rparr>) \<noteq> []
   \<and> provider_calls (handleAuthAction bundle_en (AuthFails ''auth/wrong-password'') Login
         (modal0\<lparr>password := ''pw''\<rparr>)) = [SignInWithEmailAndPassword ''ann@example.org'' ''pw'']
   \<and> \<not> loading_modal (handleAuthAction bundle_en (AuthFails ''auth/wrong-password'') Login
         (modal0\<lparr>password := ''pw''\<rparr>))"
proof -
  have h1: "email modal0 = [] \<or> password modal0 = []" by (simp add: modal0_def)
  have h2: "email (modal0\<lparr>password := ''pw''\<rparr>) \<noteq> [] \<and> password (modal0\<lparr>password := ''pw''\<rparr>) \<noteq> []"
    by (simp add: modal0_def)
  note T1 = C9_auth_action[of modal0 bundle_en AuthOk Login]
  note T2 = C9_auth_action[of "modal0\<lparr>password := ''pw''\<rparr>" bundle_en "AuthFails ''auth/wrong-password''" Login]
  have a: "error (handleAuthAction bundle_en AuthOk Login modal0) = Some ''Please fill in all fields.''
      \<and> provider_calls (handleAuthAction bundle_en AuthOk Login modal0) = []"
    using T1 h1 by (simp add: modal0_def bundle_en_def)
  have b: "provider_calls (handleAuthAction bundle_en (AuthFails ''auth/wrong-password'') Login
         (modal0\<lparr>password := ''pw''\<rparr>)) = [SignInWithEmailAndPassword ''ann@example.org'' ''pw'']
   \<and> \<not> loading_modal (handleAuthAction bundle_en (AuthFails ''auth/wrong-password'') Login
         (modal0\<lparr>password := ''pw''\<rparr>))"
    using T2 h2 by (simp add: modal0_def)
  show ?thesis using h1 h2 a b by blast
qed

section \<open>The invariants hold in every reachable state\<close>

lemma wf_init: "wf (init_app store local)"
  by (simp add: wf_def timers_ok_def subtitle_sync_def pending_closes_def init_app_def)

lemma timeout_owned:
  "timers_ok s \<Longrightarrow> t \<in> set (timers s) \<Longrightarrow> is_timeout t \<Longrightarrow>
     inactivityTimerRef s = Some (handle_of t) \<and> subtitleInterval s \<noteq> Some (handle_of t)"
  by (cases t) (auto simp: timers_ok_def)

lemma interval_owned:
  "timers_ok s \<Longrightarrow> t \<in> set (timers s) \<Longrightarrow> \<not> is_timeout t \<Longrightarrow>
     subtitleInterval s = Some (handle_of t) \<and> inactivityTimerRef s \<noteq> Some (handle_of t)"
  by (cases t) (auto simp: timers_ok_def)

lemma distinct_all_same: "distinct xs \<Longrightarrow> \<forall>x\<in>set xs. x = a \<Longrightarrow> length xs \<le> Suc 0"
  by (cases xs; cases "tl xs") auto

lemma pending_at_most_one:
  assumes "timers_ok s" shows "length (pending_closes s) \<le> 1"
proof (cases "inactivityTimerRef s")
  case None
  then have "pending_closes s = []"
    using timeout_owned[OF assms] by (auto simp: pending_closes_def filter_empty_conv)
  then show ?thesis by simp
next
  case (Some h)
  have d: "distinct (map handle_of (pending_closes s))"
    using assms by (simp add: timers_ok_def pending_closes_def distinct_map_filter)
  have "\<forall>x\<in>set (map handle_of (pending_closes s)). x = h"
    using timeout_owned[OF assms] Some by (auto simp: pending_closes_def)
  from distinct_all_same[OF d this] show ?thesis by simp
qed


lemma filter_filter_same:
  "\<forall>t\<in>set ts. P t \<longrightarrow> Q t \<Longrightarrow> filter P (filter Q ts) = filter P ts"
  by (induction ts) auto

lemma frame_refl: "frame s s" by (simp add: frame_def)

lemma frame_trans: "frame s s1 \<Longrightarrow> frame s1 s2 \<Longrightarrow> frame s s2" by (simp add: frame_def)

lemma clear_inactivity_frame:
  "frame s (clear_inactivity s)"
  "currentSubtitle (clear_inactivity s) = currentSubtitle s"
  "subtitleInterval (clear_inactivity s) = subtitleInterval s"
  by (simp_all add: frame_def clear_inactivity_def clearTimer_def split: option.splits)

lemma resetInactivityTimer_frame:
  "frame s (resetInactivityTimer s)"
  "currentSubtitle (resetInactivityTimer s) = currentSubtitle s"
  "subtitleInterval (resetInactivityTimer s) = subtitleInterval s"
  by (simp_all add: frame_def resetInactivityTimer_def window_setTimeout_def
        clear_inactivity_def clearTimer_def split: option.splits)

lemma subtitle_cleanup_frame:
  "frame s (subtitle_cleanup s)"
  "currentSubtitle (subtitle_cleanup s) = currentSubtitle s"
  "subtitleInterval (subtitle_cleanup s) = subtitleInterval s"
  by (simp_all add: frame_def subtitle_cleanup_def clearTimer_def split: option.splits)

lemma subtitle_effect_frame: "frame s (subtitle_effect c s)"
  by (simp add: frame_def subtitle_effect_def window_setInterval_def Let_def)

lemma timers_ok_clear_inactivity:
  assumes "timers_ok s"
  shows "timers_ok (clear_inactivity s)"
    and "pending_closes (clear_inactivity s) = []"
    and "live_intervals (clear_inactivity s) = live_intervals s"
proof -
  show "timers_ok (clear_inactivity s)"
    using assms
    by (auto simp: timers_ok_def clear_inactivity_def clearTimer_def distinct_map_filter
        split: option.splits)
  show "pending_closes (clear_inactivity s) = []"
  proof (cases "inactivityTimerRef s")
    case None
    then show ?thesis using timeout_owned[OF assms]
      by (auto simp: clear_inactivity_def pending_closes_def filter_empty_conv)
  next
    case (Some h)
    have "\<forall>t\<in>set (timers s). is_timeout t \<longrightarrow> handle_of t = h \<and> h \<noteq> 0"
      using timeout_owned[OF assms] Some assms by (auto simp: timers_ok_def)
    then show ?thesis using Some
      by (auto simp: clear_inactivity_def clearTimer_def pending_closes_def filter_empty_conv)
  qed
  show "live_intervals (clear_inactivity s) = live_intervals s"
  proof (cases "inactivityTimerRef s")
    case None
    then show ?thesis by (simp add: clear_inactivity_def live_intervals_def)
  next
    case (Some h)
    have "\<forall>t\<in>set (timers s). \<not> is_timeout t \<longrightarrow> handle_of t \<noteq> h"
      using interval_owned[OF assms] Some by auto
    from filter_filter_same[OF this] show ?thesis
      using Some by (simp add: clear_inactivity_def clearTimer_def live_intervals_def)
  qed
qed

lemma timers_ok_resetInactivityTimer:
  assumes "timers_ok s"
  shows "timers_ok (resetInactivityTimer s)"
    and "pending_closes (resetInactivityTimer s) = [Timeout (next_handle s) 5000]"
    and "live_intervals (resetInactivityTimer s) = live_intervals s"
proof -
  let ?s1 = "clear_inactivity s"
  note C = timers_ok_clear_inactivity[OF assms]
  have nh: "next_handle ?s1 = next_handle s" "subtitleInterval ?s1 = subtitleInterval s"
    by (simp_all add: clear_inactivity_def clearTimer_def split: option.splits)
  have R: "resetInactivityTimer s =
      ?s1\<lparr>timers := timers ?s1 @ [Timeout (next_handle s) 5000],
           next_handle := Suc (next_handle s), inactivityTimerRef := Some (next_handle s)\<rparr>"
    by (simp add: resetInactivityTimer_def window_setTimeout_def nh)
  have no_to: "\<forall>t\<in>set (timers ?s1). \<not> is_timeout t"
    using C(2) by (simp add: pending_closes_def filter_empty_conv)
  show "timers_ok (resetInactivityTimer s)"
    unfolding R using C(1) no_to nh
    by (auto simp: timers_ok_def)
  show "pending_closes (resetInactivityTimer s) = [Timeout (next_handle s) 5000]"
    unfolding R using C(2) by (simp add: pending_closes_def)
  show "live_intervals (resetInactivityTimer s) = live_intervals s"
    unfolding R using C(3) by (simp add: live_intervals_def)
qed

lemma timers_ok_subtitle_cleanup:
  assumes "timers_ok s"
  shows "timers_ok (subtitle_cleanup s)"
    and "live_intervals (subtitle_cleanup s) = []"
    and "pending_closes (subtitle_cleanup s) = pending_closes s"
    and "inactivityTimerRef (subtitle_cleanup s) = inactivityTimerRef s"
proof -
  show "timers_ok (subtitle_cleanup s)"
    using assms
    by (auto simp: timers_ok_def subtitle_cleanup_def clearTimer_def distinct_map_filter
        split: option.splits)
  show "live_intervals (subtitle_cleanup s) = []"
  proof (cases "subtitleInterval s")
    case None
    then show ?thesis using interval_owned[OF assms]
      by (auto simp: subtitle_cleanup_def live_intervals_def filter_empty_conv)
  next
    case (Some h)
    have "\<forall>t\<in>set (timers s). \<not> is_timeout t \<longrightarrow> handle_of t = h"
      using interval_owned[OF assms] Some by auto
    then show ?thesis using Some
      by (auto simp: subtitle_cleanup_def clearTimer_def live_intervals_def filter_empty_conv)
  qed
  show "pending_closes (subtitle_cleanup s) = pending_closes s"
  proof (cases "subtitleInterval s")
    case None
    then show ?thesis by (simp add: subtitle_cleanup_def pending_closes_def)
  next
    case (Some h)
    have "\<forall>t\<in>set (timers s). is_timeout t \<longrightarrow> handle_of t \<noteq> h"
      using timeout_owned[OF assms] Some by auto
    from filter_filter_same[OF this] show ?thesis
      using Some by (simp add: subtitle_cleanup_def clearTimer_def pending_closes_def)
  qed
  show "inactivityTimerRef (subtitle_cleanup s) = inactivityTimerRef s"
    by (simp add: subtitle_cleanup_def clearTimer_def split: option.splits)
qed

lemma timers_ok_subtitle_effect:
  assumes "timers_ok s" "live_intervals s = []"
  shows "timers_ok (subtitle_effect c s)"
    and "subtitle_sync (subtitle_effect c s)"
    and "pending_closes (subtitle_effect c s) = pending_closes s"
proof -
  have no_iv: "\<forall>t\<in>set (timers s). is_timeout t"
    using assms(2) by (simp add: live_intervals_def filter_empty_conv)
  show "timers_ok (subtitle_effect c s)"
    using assms(1) no_iv
    by (auto simp: timers_ok_def subtitle_effect_def window_setInterval_def Let_def)
  show "subtitle_sync (subtitle_effect c s)"
    by (simp add: subtitle_sync_def subtitle_effect_def window_setInterval_def Let_def)
  show "pending_closes (subtitle_effect c s) = pending_closes s"
    by (simp add: pending_closes_def subtitle_effect_def window_setInterval_def Let_def)
qed

lemma subtitle_sync_cong:
  assumes "frame s s'" "subtitleInterval s' = subtitleInterval s"
    "currentSubtitle s' = currentSubtitle s" "live_intervals s' = live_intervals s"
  shows "subtitle_sync s' = subtitle_sync s"
proof -
  have "\<And>h. Interval h 3000 \<in> set (timers s') \<longleftrightarrow> Interval h 3000 \<in> set (timers s)"
  proof -
    fix h
    have "Interval h 3000 \<in> set (timers s') \<longleftrightarrow> Interval h 3000 \<in> set (live_intervals s')"
      by (simp add: live_intervals_def)
    also have "\<dots> \<longleftrightarrow> Interval h 3000 \<in> set (live_intervals s)" using assms(4) by simp
    also have "\<dots> \<longleftrightarrow> Interval h 3000 \<in> set (timers s)" by (simp add: live_intervals_def)
    finally show "Interval h 3000 \<in> set (timers s') \<longleftrightarrow> Interval h 3000 \<in> set (timers s)" .
  qed
  then show ?thesis using assms(1,2,3) by (auto simp: subtitle_sync_def frame_def)
qed


lemma panel_effect_props:
  assumes "timers_ok s"
  shows "timers_ok (panel_effect s)" and "frame s (panel_effect s)"
    and "currentSubtitle (panel_effect s) = currentSubtitle s"
    and "subtitleInterval (panel_effect s) = subtitleInterval s"
    and "live_intervals (panel_effect s) = live_intervals s"
    and "pending_closes (panel_effect s)
           = (if isPanelOpen s then [Timeout (next_handle s) 5000] else [])"
  using timers_ok_clear_inactivity[OF assms] timers_ok_resetInactivityTimer[OF assms]
    clear_inactivity_frame[of s] resetInactivityTimer_frame[of s]
  by (simp_all add: panel_effect_def)

lemma panel_cleanup_props:
  assumes "timers_ok s"
  shows "timers_ok (panel_cleanup s)" and "frame s (panel_cleanup s)"
    and "currentSubtitle (panel_cleanup s) = currentSubtitle s"
    and "subtitleInterval (panel_cleanup s) = subtitleInterval s"
    and "live_intervals (panel_cleanup s) = live_intervals s"
    and "pending_closes (panel_cleanup s) = []"
  using timers_ok_clear_inactivity[OF assms] clear_inactivity_frame[of s]
  by (simp_all add: panel_cleanup_def)

lemma subtitle_effect_caption:
  "currentSubtitle (subtitle_effect c s) =
     (if user s \<noteq> None \<and> subtitlesEnabled s \<and> \<not> isTranslationStopped s
      then Some (translationActive (t_of c (detectedLang s))) else Some [])"
  by (auto simp: subtitle_effect_def window_setInterval_def Let_def)

lemma commit_props:
  assumes ok: "timers_ok new"
    and sy: "subtitle_deps c old = subtitle_deps c new \<Longrightarrow> subtitle_sync new"
    and pc: "isPanelOpen old = isPanelOpen new \<Longrightarrow> \<not> isPanelOpen new \<Longrightarrow> pending_closes new = []"
  shows "wf (commit c old new)"
    and "frame new (commit c old new)"
    and "currentSubtitle (commit c old new) =
          (if subtitle_deps c old \<noteq> subtitle_deps c new
           then (if user new \<noteq> None \<and> subtitlesEnabled new \<and> \<not> isTranslationStopped new
                 then Some (translationActive (t_of c (detectedLang new))) else Some [])
           else currentSubtitle new)"
    and "isPanelOpen old \<noteq> isPanelOpen new \<Longrightarrow> isPanelOpen new \<Longrightarrow>
           length (pending_closes (commit c old new)) = 1"
proof -
  define sub where "sub = (subtitle_deps c old \<noteq> subtitle_deps c new)"
  define pan where "pan = (isPanelOpen old \<noteq> isPanelOpen new)"
  define s1 where "s1 = (if sub then subtitle_cleanup new else new)"
  define s2 where "s2 = (if pan then panel_cleanup s1 else s1)"
  define s3 where "s3 = (if sub then subtitle_effect c s2 else s2)"
  define s4 where "s4 = (if pan then panel_effect s3 else s3)"
  have C: "commit c old new = s4"
    by (simp add: commit_def Let_def s4_def s3_def s2_def s1_def sub_def pan_def)
  have ok1: "timers_ok s1" and f1: "frame new s1"
    and li1: "sub \<Longrightarrow> live_intervals s1 = []"
    and p1: "pending_closes s1 = pending_closes new"
    and c1: "currentSubtitle s1 = currentSubtitle new"
    and i1: "subtitleInterval s1 = subtitleInterval new"
    using timers_ok_subtitle_cleanup[OF ok] subtitle_cleanup_frame[of new] ok
    by (simp_all add: s1_def frame_refl)
  have ok2: "timers_ok s2" and f2: "frame s1 s2"
    and li2: "live_intervals s2 = live_intervals s1"
    and p2: "pending_closes s2 = (if pan then [] else pending_closes s1)"
    and c2: "currentSubtitle s2 = currentSubtitle s1"
    and i2: "subtitleInterval s2 = subtitleInterval s1"
    using panel_cleanup_props[OF ok1] ok1
    by (simp_all add: s2_def frame_refl)
  have li2': "sub \<Longrightarrow> live_intervals s2 = []" using li1 li2 by simp
  have ok3: "timers_ok s3" and f3: "frame s2 s3"
    and p3: "pending_closes s3 = pending_closes s2"
    using timers_ok_subtitle_effect[OF ok2 li2'] subtitle_effect_frame[of s2 c] ok2
    by (simp_all add: s3_def frame_refl)
  have fn2: "frame new s2" using frame_trans[OF f1 f2] .
  have sy_new: "\<not> sub \<Longrightarrow> subtitle_sync new" using sy by (simp add: sub_def)
  have sy2: "\<not> sub \<Longrightarrow> subtitle_sync s2"
  proof -
    assume ns: "\<not> sub"
    then have "s1 = new" by (simp add: s1_def)
    then have "subtitle_sync s2 = subtitle_sync new"
      using subtitle_sync_cong[OF fn2] c1 c2 i1 i2 li2 by simp
    then show ?thesis using sy_new ns by simp
  qed
  have sy3: "subtitle_sync s3"
    using timers_ok_subtitle_effect(2)[OF ok2 li2'] sy2 by (cases sub) (simp_all add: s3_def)
  have ok4: "timers_ok s4" and f4: "frame s3 s4"
    and c4: "currentSubtitle s4 = currentSubtitle s3"
    and i4: "subtitleInterval s4 = subtitleInterval s3"
    and li4: "live_intervals s4 = live_intervals s3"
    and p4: "pending_closes s4 = (if pan then (if isPanelOpen s3 then [Timeout (next_handle s3) 5000] else [])
                else pending_closes s3)"
    using panel_effect_props[OF ok3] ok3
    by (simp_all add: s4_def frame_refl)
  have sy4: "subtitle_sync s4"
    using subtitle_sync_cong[OF f4 i4 c4 li4] sy3 by simp
  have fn4: "frame new s4" using frame_trans[OF frame_trans[OF fn2 f3] f4] .
  have po3: "isPanelOpen s3 = isPanelOpen new" "isPanelOpen s4 = isPanelOpen new"
    using frame_trans[OF fn2 f3] fn4 by (simp_all add: frame_def)
  have pj: "\<not> isPanelOpen s4 \<Longrightarrow> pending_closes s4 = []"
    using p4 p3 p2 p1 pc po3 by (auto simp: pan_def)
  show "wf (commit c old new)" unfolding C wf_def using ok4 sy4 pj by simp
  show "frame new (commit c old new)" unfolding C using fn4 .
  have u2: "user s2 = user new" "subtitlesEnabled s2 = subtitlesEnabled new"
    "isTranslationStopped s2 = isTranslationStopped new" "detectedLang s2 = detectedLang new"
    using fn2 by (simp_all add: frame_def)
  show "currentSubtitle (commit c old new) =
          (if subtitle_deps c old \<noteq> subtitle_deps c new
           then (if user new \<noteq> None \<and> subtitlesEnabled new \<and> \<not> isTranslationStopped new
                 then Some (translationActive (t_of c (detectedLang new))) else Some [])
           else currentSubtitle new)"
    unfolding C c4 using c1 c2 u2
    by (auto simp: s3_def subtitle_effect_caption sub_def[symmetric])
  show "isPanelOpen old \<noteq> isPanelOpen new \<Longrightarrow> isPanelOpen new \<Longrightarrow>
           length (pending_closes (commit c old new)) = 1"
    unfolding C using p4 po3 by (simp add: pan_def)
qed


lemma same_timers_refl: "same_timers s s" by (simp add: same_timers_def)

lemma same_timers_props:
  assumes "wf s" "same_timers s s'"
  shows "timers_ok s'"
    and "subtitle_deps c s = subtitle_deps c s' \<Longrightarrow> subtitle_sync s'"
    and "isPanelOpen s = isPanelOpen s' \<Longrightarrow> \<not> isPanelOpen s' \<Longrightarrow> pending_closes s' = []"
proof -
  show "timers_ok s'" using assms by (simp add: wf_def timers_ok_def same_timers_def)
  show "subtitle_deps c s = subtitle_deps c s' \<Longrightarrow> subtitle_sync s'"
    using assms by (simp add: wf_def subtitle_sync_def same_timers_def subtitle_deps_def)
  show "isPanelOpen s = isPanelOpen s' \<Longrightarrow> \<not> isPanelOpen s' \<Longrightarrow> pending_closes s' = []"
    using assms by (simp add: wf_def pending_closes_def same_timers_def)
qed

lemma priority1_same: "same_timers s (snd (priority1 e s))"
  by (simp add: priority1_def same_timers_def Let_def split: option.splits)

lemma priority3_same: "same_timers s (snd (priority3 c e s))"
  by (simp add: priority3_def same_timers_def Let_def split: option.splits geo_result.splits)

lemma write_back_same: "same_timers s (write_back e l s)"
  by (simp add: write_back_def same_timers_def Let_def split: option.splits)

lemma same_timers_trans: "same_timers s s1 \<Longrightarrow> same_timers s1 s2 \<Longrightarrow> same_timers s s2"
  by (simp add: same_timers_def)

lemma same_timers_lang: "same_timers s s1 \<Longrightarrow> same_timers s (s1\<lparr>detectedLang := l\<rparr>)"
  by (simp add: same_timers_def)

lemma loadUserProfile_same: "same_timers s (loadUserProfile c e s)"
proof -
  obtain r1 s1 where p1: "priority1 e s = (r1, s1)" by (cases "priority1 e s")
  obtain l3 s2 where p3: "priority3 c e s1 = (l3, s2)" by (cases "priority3 c e s1")
  have a: "same_timers s s1" using priority1_same[of s e] p1 by simp
  have b: "same_timers s1 s2" using priority3_same[of s1 c e] p3 by simp
  have c: "same_timers s (write_back e l3 (s2\<lparr>detectedLang := l3\<rparr>))"
    using same_timers_trans[OF same_timers_lang[OF same_timers_trans[OF a b]] write_back_same] .
  show ?thesis
    using loadUserProfile_unfold[OF p1 p3] same_timers_lang[OF a] c
    by (simp split: option.splits)
qed

lemma handleLanguageChange_same: "same_timers s (handleLanguageChange e l s)"
  by (simp add: handleLanguageChange_def same_timers_def Let_def split: option.splits)

lemma gesture_same: "same_timers s (gesture e button moves s)"
proof (cases "handleDrag e button s")
  case None
  then show ?thesis by (simp add: gesture_def same_timers_refl)
next
  case (Some d)
  obtain d1 s1 where dm: "drag_moves moves (d, s) = (d1, s1)" by (cases "drag_moves moves (d, s)")
  have s1: "s1 = s\<lparr>buttonStyle := buttonStyle s1\<rparr>" using drag_moves_effect[OF dm, THEN conjunct1] .
  have a: "same_timers s s1" by (subst s1) (simp add: same_timers_def)
  have b: "same_timers s1 (onMouseUp d1 s1)"
    by (simp add: onMouseUp_def onMouseUp_actions_def same_timers_def)
  show ?thesis using Some dm same_timers_trans[OF a b] by (simp add: gesture_def)
qed

lemma timers_ok_clearTimer: "timers_ok s \<Longrightarrow> timers_ok (clearTimer h s)"
  by (auto simp: timers_ok_def clearTimer_def distinct_map_filter)

lemma handler_props:
  assumes "wf s"
  shows "timers_ok (handler c ev s)"
    and "subtitle_deps c s = subtitle_deps c (handler c ev s) \<Longrightarrow> subtitle_sync (handler c ev s)"
    and "isPanelOpen s = isPanelOpen (handler c ev s) \<Longrightarrow> \<not> isPanelOpen (handler c ev s)
           \<Longrightarrow> pending_closes (handler c ev s) = []"
proof -
  have ok: "timers_ok s" and sy: "subtitle_sync s"
    and pj: "\<not> isPanelOpen s \<Longrightarrow> pending_closes s = []"
    using assms by (simp_all add: wf_def)
  note S = same_timers_props[OF assms]
  have simple: "same_timers s (handler c ev s) \<Longrightarrow>
      timers_ok (handler c ev s)
    \<and> (subtitle_deps c s = subtitle_deps c (handler c ev s) \<longrightarrow> subtitle_sync (handler c ev s))
    \<and> (isPanelOpen s = isPanelOpen (handler c ev s) \<longrightarrow> \<not> isPanelOpen (handler c ev s)
           \<longrightarrow> pending_closes (handler c ev s) = [])"
    using S by blast
  have all: "timers_ok (handler c ev s)
    \<and> (subtitle_deps c s = subtitle_deps c (handler c ev s) \<longrightarrow> subtitle_sync (handler c ev s))
    \<and> (isPanelOpen s = isPanelOpen (handler c ev s) \<longrightarrow> \<not> isPanelOpen (handler c ev s)
           \<longrightarrow> pending_closes (handler c ev s) = [])"
  proof (cases ev)
    case (AuthStateChanged cu)
    have "same_timers s (handler c ev s)"
      by (simp add: AuthStateChanged onAuthStateChanged_def same_timers_def Let_def)
    then show ?thesis by (rule simple)
  next
    case (ProfileLoad e)
    have "same_timers s (handler c ev s)" by (simp add: ProfileLoad loadUserProfile_same)
    then show ?thesis by (rule simple)
  next
    case (LanguageSelected e l)
    have "same_timers s (handler c ev s)"
      by (simp add: LanguageSelected handleLanguageChange_same same_timers_refl)
    then show ?thesis by (rule simple)
  next
    case (IntervalFires h r)
    show ?thesis
    proof (cases "h \<in> set (map handle_of (live_intervals s)) \<and> is_random r")
      case False
      then have "handler c ev s = s" using IntervalFires by auto
      then show ?thesis using simple same_timers_refl by simp
    next
      case True
      then obtain t where t: "t \<in> set (timers s)" "\<not> is_timeout t"
        by (auto simp: live_intervals_def)
      have si: "subtitleInterval s \<noteq> None" using interval_owned[OF ok t] by simp
      have conj: "user s \<noteq> None \<and> subtitlesEnabled s \<and> \<not> isTranslationStopped s"
        using sy si by (auto simp: subtitle_sync_def split: if_splits)
      have H: "handler c ev s = interval_callback c r s" using True IntervalFires by simp
      have a: "timers_ok (interval_callback c r s)"
        using ok by (simp add: timers_ok_def interval_callback_def Let_def)
      have b: "subtitle_sync (interval_callback c r s)"
        using sy conj by (simp add: subtitle_sync_def interval_callback_def Let_def)
      have d: "pending_closes (interval_callback c r s) = pending_closes s"
        "isPanelOpen (interval_callback c r s) = isPanelOpen s"
        by (simp_all add: pending_closes_def interval_callback_def Let_def)
      show ?thesis unfolding H using a b d pj by simp
    qed
  next
    case (TimeoutFires h)
    show ?thesis
    proof (cases "h \<in> set (map handle_of (pending_closes s))")
      case False
      then have "handler c ev s = s" using TimeoutFires by simp
      then show ?thesis using simple same_timers_refl by simp
    next
      case True
      then obtain t where t: "t \<in> set (timers s)" "is_timeout t" "handle_of t = h"
        by (auto simp: pending_closes_def)
      have H: "handler c ev s = inactivity_callback (clearTimer h s)"
        using True TimeoutFires by simp
      have "pending_closes s \<noteq> []" using True by auto
      then have op: "isPanelOpen s" using pj by blast
      have ref: "inactivityTimerRef s = Some h" using timeout_owned[OF ok t(1,2)] t(3) by simp
      have a: "timers_ok (inactivity_callback (clearTimer h s))"
        using timers_ok_clearTimer[OF ok, of h]
        by (simp add: timers_ok_def inactivity_callback_def clearTimer_def)
      have iv: "\<And>h'. Interval h' 3000 \<in> set (timers s) \<Longrightarrow> h' \<noteq> h"
        using interval_owned[OF ok] ref by fastforce
      have b: "subtitle_sync (inactivity_callback (clearTimer h s))"
        using sy iv by (auto simp: subtitle_sync_def inactivity_callback_def clearTimer_def)
      have d: "isPanelOpen (inactivity_callback (clearTimer h s)) \<noteq> isPanelOpen s"
        using op by (simp add: inactivity_callback_def clearTimer_def)
      show ?thesis unfolding H using a b d by simp
    qed
  next
    case (DocumentMouseDown ip ib)
    have "same_timers s (handler c ev s)"
      by (simp add: DocumentMouseDown handleOutsideClick_def same_timers_def)
    then show ?thesis by (rule simple)
  next
    case PanelMouseEnter
    show ?thesis
    proof (cases "panelRef s")
      case False
      then have "handler c ev s = s" using PanelMouseEnter by simp
      then show ?thesis using simple same_timers_refl by simp
    next
      case True
      have H: "handler c ev s = clear_inactivity s" using True PanelMouseEnter by simp
      note C = timers_ok_clear_inactivity[OF ok]
      have b: "subtitle_sync (clear_inactivity s)"
        using subtitle_sync_cong[OF clear_inactivity_frame(1) clear_inactivity_frame(3)
            clear_inactivity_frame(2) C(3)] sy by simp
      show ?thesis unfolding H using C(1,2) b by simp
    qed
  next
    case PanelMouseLeave
    show ?thesis
    proof (cases "panelRef s")
      case False
      then have "handler c ev s = s" using PanelMouseLeave by simp
      then show ?thesis using simple same_timers_refl by simp
    next
      case True
      have H: "handler c ev s = resetInactivityTimer s" using True PanelMouseLeave by simp
      note C = timers_ok_resetInactivityTimer[OF ok]
      have b: "subtitle_sync (resetInactivityTimer s)"
        using subtitle_sync_cong[OF resetInactivityTimer_frame(1) resetInactivityTimer_frame(3)
            resetInactivityTimer_frame(2) C(3)] sy by simp
      have d: "isPanelOpen (resetInactivityTimer s)"
        using resetInactivityTimer_frame(1)[of s] True by (simp add: frame_def panelRef_def)
      show ?thesis unfolding H using C(1) b d by simp
    qed
  next
    case (SubtitlesChecked b)
    have "same_timers s (handler c ev s)" by (simp add: SubtitlesChecked same_timers_def)
    then show ?thesis by (rule simple)
  next
    case StopClicked
    have "same_timers s (handler c ev s)" by (simp add: StopClicked same_timers_def)
    then show ?thesis by (rule simple)
  next
    case SettingsClicked
    have "same_timers s (handler c ev s)" by (simp add: SettingsClicked same_timers_def)
    then show ?thesis by (rule simple)
  next
    case (Gesture e b moves)
    have "same_timers s (handler c ev s)" by (simp add: Gesture gesture_same same_timers_refl)
    then show ?thesis by (rule simple)
  next
    case AuthModalClosed
    have "same_timers s (handler c ev s)" by (simp add: AuthModalClosed same_timers_def)
    then show ?thesis by (rule simple)
  qed
  show "timers_ok (handler c ev s)"
    and "subtitle_deps c s = subtitle_deps c (handler c ev s) \<Longrightarrow> subtitle_sync (handler c ev s)"
    and "isPanelOpen s = isPanelOpen (handler c ev s) \<Longrightarrow> \<not> isPanelOpen (handler c ev s)
           \<Longrightarrow> pending_closes (handler c ev s) = []"
    using all by blast+
qed


lemma wf_step: "wf s \<Longrightarrow> wf (step c ev s)"
  unfolding step_def using handler_props[of s c ev] by (intro commit_props(1)) auto

lemma wf_run: "wf s \<Longrightarrow> wf (run c evs s)"
  unfolding run_def by (induction evs arbitrary: s) (simp_all add: wf_step)

lemma wf_reachable: "wf (run c evs (init_app store local))"
  by (rule wf_run[OF wf_init])


section \<open>Properties of the panel and of the subtitle simulator\<close>

lemmas step_defs = run_def step_def commit_def subtitle_deps_def t_key_def subtitle_cleanup_def
  subtitle_effect_def panel_cleanup_def panel_effect_def clear_inactivity_def clearTimer_def
  resetInactivityTimer_def window_setTimeout_def window_setInterval_def onAuthStateChanged_def
  handleOutsideClick_def panelRef_def buttonRef_def inactivity_callback_def interval_callback_def
  pending_closes_def live_intervals_def t_of_def

lemma commit_frame: "frame new (commit c old new)"
proof -
  have a: "\<And>s. frame s (panel_effect s)"
    by (simp add: panel_effect_def clear_inactivity_frame resetInactivityTimer_frame)
  have b: "\<And>s. frame s (panel_cleanup s)"
    by (simp add: panel_cleanup_def clear_inactivity_frame)
  have c1: "\<And>s. frame s (if P then subtitle_cleanup s else s)" for P
    by (simp add: subtitle_cleanup_frame(1) frame_refl)
  have c2: "\<And>s. frame s (if P then panel_cleanup s else s)" for P
    by (simp add: b frame_refl)
  have c3: "\<And>s. frame s (if P then subtitle_effect c s else s)" for P
    by (simp add: subtitle_effect_frame frame_refl)
  have c4: "\<And>s. frame s (if P then panel_effect s else s)" for P
    by (simp add: a frame_refl)
  show ?thesis
    unfolding commit_def Let_def
    by (rule frame_trans[OF frame_trans[OF frame_trans[OF c1 c2] c3] c4])
qed

lemma commit_noop:
  "subtitle_deps c old = subtitle_deps c new \<Longrightarrow> isPanelOpen old = isPanelOpen new
     \<Longrightarrow> commit c old new = new"
  by (simp add: commit_def)

lemma step_flags:
  "isPanelOpen (step c ev s) = isPanelOpen (handler c ev s)"
  "isSettingsOpen (step c ev s) = isSettingsOpen (handler c ev s)"
  "isAuthModalOpen (step c ev s) = isAuthModalOpen (handler c ev s)"
  "user (step c ev s) = user (handler c ev s)"
  "subtitlesEnabled (step c ev s) = subtitlesEnabled (handler c ev s)"
  "isTranslationStopped (step c ev s) = isTranslationStopped (handler c ev s)"
  "detectedLang (step c ev s) = detectedLang (handler c ev s)"
  using commit_frame[of "handler c ev s" c s] by (simp_all add: step_def frame_def)

lemma app1_eval:
  "run catalog0 login_u1 app0 =
     \<lparr>user = Some ''u1'', loading = False, isAuthModalOpen = False, isPanelOpen = True,
      isSettingsOpen = False, isTranslationStopped = False, detectedLang = ''en'',
      subtitlesEnabled = True, currentSubtitle = Some ''Translation active'',
      inactivityTimerRef = Some 2, subtitleInterval = Some 1, buttonStyle = None,
      timers = [Interval 1 3000, Timeout 2 5000], next_handle = 3,
      durable = store0, localStorage = local_none, requests = [], console = [], alerts = []\<rparr>"
  by (simp add: app0_def login_u1_def step_defs init_app_def catalog0_def bundle_en_def
      translations_tbl_def Let_def)


text \<open>Binary64 rounding and the index \<open>Math.floor(r * n)\<close>.\<close>

lemma bits_0 [simp]: "bits 0 = 0" by (simp add: bits.simps)

lemma bits_bounds: "n \<noteq> 0 \<Longrightarrow> 2 ^ (bits n - 1) \<le> n \<and> n < 2 ^ bits n"
proof (induction n rule: bits.induct)
  case (1 n)
  show ?case
  proof (cases "n div 2 = 0")
    case True
    then have "n = 1" using 1 by (cases n) auto
    then show ?thesis by (simp add: bits.simps)
  next
    case False
    from 1(1)[OF 1(2) False] have ih: "2 ^ (bits (n div 2) - 1) \<le> n div 2" "n div 2 < 2 ^ bits (n div 2)"
      by simp_all
    have b: "bits n = Suc (bits (n div 2))" using 1(2) by (simp add: bits.simps)
    have pos: "bits (n div 2) \<noteq> 0" using False by (simp add: bits.simps)
    have "2 ^ (bits n - 1) = 2 * 2 ^ (bits (n div 2) - 1)"
      using b pos by (cases "bits (n div 2)") simp_all
    also have "\<dots> \<le> 2 * (n div 2)" using ih(1) by simp
    also have "\<dots> \<le> n" by simp
    finally have lo: "2 ^ (bits n - 1) \<le> n" .
    have "n < 2 * (n div 2) + 2" by presburger
    also have "\<dots> \<le> 2 * 2 ^ bits (n div 2)" using ih(2) by simp
    finally have hi: "n < 2 ^ bits n" using b by simp
    show ?thesis using lo hi by simp
  qed
qed

lemma bits_le_iff: "bits n \<le> k \<longleftrightarrow> n < 2 ^ k"
proof (cases "n = 0")
  case True then show ?thesis by simp
next
  case False
  note B = bits_bounds[OF False]
  show ?thesis
  proof
    assume "bits n \<le> k"
    then have "(2::nat) ^ bits n \<le> 2 ^ k" by (simp add: power_increasing)
    then show "n < 2 ^ k" using B by linarith
  next
    assume a: "n < 2 ^ k"
    show "bits n \<le> k"
    proof (rule ccontr)
      assume "\<not> bits n \<le> k"
      then have "k \<le> bits n - 1" by simp
      then have "(2::nat) ^ k \<le> 2 ^ (bits n - 1)" by (simp add: power_increasing)
      then show False using B a by linarith
    qed
  qed
qed


lemma bits_mono: "a \<le> b \<Longrightarrow> bits a \<le> bits b"
proof -
  assume "a \<le> b"
  have "b < 2 ^ bits b" by (cases "b = 0") (simp_all add: bits_bounds)
  with \<open>a \<le> b\<close> have "a < 2 ^ bits b" by simp
  then show ?thesis by (simp add: bits_le_iff)
qed

lemma bits_eqI: "2 ^ b \<le> x \<Longrightarrow> x < 2 ^ Suc b \<Longrightarrow> bits x = Suc b"
proof -
  assume lo: "2 ^ b \<le> x" and hi: "x < 2 ^ Suc b"
  have "bits x \<le> Suc b" using hi by (simp add: bits_le_iff)
  moreover have "\<not> bits x \<le> b" using lo by (simp add: bits_le_iff)
  ultimately show ?thesis by simp
qed

lemma bits_mult_pow: "j \<noteq> 0 \<Longrightarrow> bits (j * 2 ^ t) = bits j + t"
proof -
  assume j: "j \<noteq> 0"
  then obtain b where b: "bits j = Suc b"
    by (cases "bits j") (simp_all add: bits.simps)
  from bits_bounds[OF j] b have "2 ^ b \<le> j" "j < 2 ^ Suc b" by simp_all
  then have "2 ^ b * 2 ^ t \<le> j * 2 ^ t" "j * 2 ^ t < 2 ^ Suc b * 2 ^ t" by simp_all
  then have "2 ^ (b + t) \<le> j * 2 ^ t" "j * 2 ^ t < 2 ^ Suc (b + t)"
    by (simp_all add: power_add)
  from bits_eqI[OF this] show ?thesis using b by simp
qed

text \<open>The quotient of the rounding has exactly 53 bits.\<close>

lemma round53_quotient:
  assumes "53 < bits a"
  shows "2 ^ 52 \<le> a div 2 ^ (bits a - 53)" and "a div 2 ^ (bits a - 53) < 2 ^ 53"
proof -
  let ?sh = "bits a - 53"
  have a0: "a \<noteq> 0" using assms by (cases "a = 0") simp_all
  have e: "bits a - 1 = 52 + ?sh" "bits a = 53 + ?sh" using assms by simp_all
  from bits_bounds[OF a0] have lo: "2 ^ 52 * 2 ^ ?sh \<le> a" and hi: "a < 2 ^ 53 * 2 ^ ?sh"
    unfolding power_add[symmetric] using e by simp_all
  show "2 ^ 52 \<le> a div 2 ^ ?sh"
    using lo by (simp add: less_eq_div_iff_mult_less_eq)
  show "a div 2 ^ ?sh < 2 ^ 53"
    using hi by (simp add: less_mult_imp_div_less)
qed

lemma round53_split:
  assumes "53 < bits a"
  obtains P q r where "P = 2 ^ (bits a - 53)" "0 < P" "a = q * P + r" "r < P"
    "2 ^ 52 \<le> q" "q < 2 ^ 53" "2 ^ bits a = 2 ^ 53 * P" "2 ^ (bits a - 1) = 2 ^ 52 * P"
    "round53 a = (if P < 2 * r \<or> (2 * r = P \<and> odd q) then (q + 1) * P else q * P)"
proof -
  let ?P = "(2::nat) ^ (bits a - 53)"
  have 1: "a = (a div ?P) * ?P + a mod ?P" by (simp add: div_mult_mod_eq)
  have 2: "(2::nat) ^ bits a = 2 ^ 53 * ?P" "(2::nat) ^ (bits a - 1) = 2 ^ 52 * ?P"
    unfolding power_add[symmetric] using assms by simp_all
  have 3: "round53 a = (if ?P < 2 * (a mod ?P) \<or> (2 * (a mod ?P) = ?P \<and> odd (a div ?P))
      then (a div ?P + 1) * ?P else (a div ?P) * ?P)"
    using assms by (simp add: round53_def Let_def)
  show ?thesis
    by (rule that[of ?P "a div ?P" "a mod ?P"])
       (use 1 2 3 round53_quotient[OF assms] in simp_all)
qed



lemma round53_le_representable:
  assumes j: "j < 2 ^ 53" and le: "a \<le> j * 2 ^ e"
  shows "round53 a \<le> j * 2 ^ e"
proof (cases "bits a \<le> 53")
  case True
  then show ?thesis using le by (simp add: round53_def)
next
  case False
  then have big: "53 < bits a" by simp
  from big obtain P q r where s: "P = 2 ^ (bits a - 53)" "0 < P" "a = q * P + r" "r < P"
    "q < 2 ^ 53" "2 ^ bits a = 2 ^ 53 * P"
    "round53 a = (if P < 2 * r \<or> (2 * r = P \<and> odd q) then (q + 1) * P else q * P)"
    by (rule round53_split)
  show ?thesis
  proof (cases "r = 0")
    case True
    then have "round53 a = a" unfolding s(7) using s(2,3) by simp
    then show ?thesis using le by simp
  next
    case r0: False
    have R: "round53 a \<le> (q + 1) * P" unfolding s(7) by simp
    have a0: "a \<noteq> 0" using big by (cases "a = 0") simp_all
    have j0: "j \<noteq> 0" using le a0 by (cases "j = 0") simp_all
    have bc: "bits (j * 2 ^ e) = bits j + e" by (rule bits_mult_pow[OF j0])
    have bj: "bits j \<le> 53" using j by (simp add: bits_le_iff)
    have le_bits: "bits a \<le> bits (j * 2 ^ e)" by (rule bits_mono[OF le])
    show ?thesis
    proof (cases "bits (j * 2 ^ e) = bits a")
      case True
      then have "bits a - 53 \<le> e" using bc bj by simp
      then obtain d where d: "e = (bits a - 53) + d" using le_Suc_ex by blast
      have c: "j * 2 ^ e = (j * 2 ^ d) * P" unfolding s(1) d power_add by simp
      have "q * P < q * P + r" using r0 by simp
      also have "\<dots> \<le> (j * 2 ^ d) * P" using le unfolding c s(3) .
      finally have "q < j * 2 ^ d" using s(2) by (simp only: mult_less_cancel2)
      then have "q + 1 \<le> j * 2 ^ d" by simp
      then have "(q + 1) * P \<le> (j * 2 ^ d) * P" by (rule mult_le_mono1)
      from order_trans[OF R this] show ?thesis unfolding c .
    next
      case False
      then have "bits a \<le> bits (j * 2 ^ e) - 1" using le_bits by simp
      then have "(2::nat) ^ bits a \<le> 2 ^ (bits (j * 2 ^ e) - 1)" by (simp add: power_increasing)
      also have "\<dots> \<le> j * 2 ^ e" using bits_bounds[of "j * 2 ^ e"] j0 by simp
      finally have big2: "2 ^ 53 * P \<le> j * 2 ^ e" unfolding s(6) .
      have "q + 1 \<le> 2 ^ 53" using s(5) by simp
      then have "(q + 1) * P \<le> 2 ^ 53 * P" by (rule mult_le_mono1)
      from order_trans[OF order_trans[OF R this] big2] show ?thesis .
    qed
  qed
qed








text \<open>
  Claim C3, as stated: \<open>isSettingsOpen\<close> is only true while \<open>isPanelOpen\<close> is, because
  every close of the panel sets both flags to false.  It fails: after a login, a click on
  the settings button and a pointer-down outside the panel and the floating control, the
  panel is closed and \<open>isSettingsOpen\<close> is still true.
\<close>

theorem C3_settings_flag_survives_close:
  "isSettingsOpen (run catalog0 [AuthStateChanged (Some ''u1''), SettingsClicked,
      DocumentMouseDown False False] app0)
   \<and> \<not> isPanelOpen (run catalog0 [AuthStateChanged (Some ''u1''), SettingsClicked,
      DocumentMouseDown False False] app0)"
  by (simp add: app0_def step_defs init_app_def catalog0_def bundle_en_def translations_tbl_def Let_def)

text \<open>
  Claim C3, amended.  A close of the panel by a pointer-down outside it or by the expiry of
  the inactivity timer sets \<open>isPanelOpen\<close> to false and leaves \<open>isSettingsOpen\<close> as it
  was; a change of the identity to absent sets both flags to false.
\<close>

theorem C3_close_and_logout_flags:
  "(isPanelOpen s \<and> panelRef s \<and> \<not> in_panel \<and> \<not> in_button \<longrightarrow>
      \<not> isPanelOpen (step c (DocumentMouseDown in_panel in_button) s)
    \<and> isSettingsOpen (step c (DocumentMouseDown in_panel in_button) s) = isSettingsOpen s)
   \<and> (h \<in> set (map handle_of (pending_closes s)) \<longrightarrow>
      \<not> isPanelOpen (step c (TimeoutFires h) s)
    \<and> isSettingsOpen (step c (TimeoutFires h) s) = isSettingsOpen s)
   \<and> \<not> isPanelOpen (step c (AuthStateChanged None) s)
   \<and> \<not> isSettingsOpen (step c (AuthStateChanged None) s)"
  by (simp add: step_flags handleOutsideClick_def panelRef_def buttonRef_def
      inactivity_callback_def clearTimer_def onAuthStateChanged_def)


theorem C3_close_and_logout_flags_witness:
  "isPanelOpen (run catalog0 login_u1 app0) \<and> panelRef (run catalog0 login_u1 app0)
   \<and> \<not> isPanelOpen (step catalog0 (DocumentMouseDown False False) (run catalog0 login_u1 app0))
   \<and> 2 \<in> set (map handle_of (pending_closes (run catalog0 login_u1 app0)))
   \<and> \<not> isPanelOpen (step catalog0 (TimeoutFires 2) (run catalog0 login_u1 app0))
   \<and> \<not> isSettingsOpen (step catalog0 (AuthStateChanged None) (run catalog0 login_u1 app0))"
proof -
  have h: "isPanelOpen (run catalog0 login_u1 app0) \<and> panelRef (run catalog0 login_u1 app0)
     \<and> \<not> False \<and> \<not> False"
    "2 \<in> set (map handle_of (pending_closes (run catalog0 login_u1 app0)))"
    by (simp_all add: app1_eval panelRef_def pending_closes_def)
  show ?thesis
    using h C3_close_and_logout_flags[of "run catalog0 login_u1 app0" False False catalog0 2]
    by blast
qed




text \<open>
  Claim C8.  In every state the overlay can reach there is at most one scheduled close.
  Re-arming leaves exactly the newly scheduled close, whatever was scheduled before: both
  when the pointer leaves the panel and when a step opens the panel.  A step that closes
  the panel leaves no scheduled close.
\<close>

theorem C8_single_pending_close:
  "s = run c evs (init_app store local) \<Longrightarrow>
     length (pending_closes s) \<le> 1
   \<and> pending_closes (resetInactivityTimer s) = [Timeout (next_handle s) 5000]
   \<and> (panelRef s \<longrightarrow> pending_closes (step c PanelMouseLeave s) = [Timeout (next_handle s) 5000])
   \<and> (\<not> isPanelOpen s \<and> isPanelOpen (step c ev s) \<longrightarrow> length (pending_closes (step c ev s)) = 1)
   \<and> (isPanelOpen s \<and> \<not> isPanelOpen (step c ev s) \<longrightarrow> pending_closes (step c ev s) = [])"
proof -
  assume s: "s = run c evs (init_app store local)"
  have w: "wf s" unfolding s by (rule wf_reachable)
  then have ok: "timers_ok s" by (simp add: wf_def)
  have a: "length (pending_closes s) \<le> 1" by (rule pending_at_most_one[OF ok])
  have b: "pending_closes (resetInactivityTimer s) = [Timeout (next_handle s) 5000]"
    by (rule timers_ok_resetInactivityTimer(2)[OF ok])
  have c: "panelRef s \<longrightarrow> pending_closes (step c PanelMouseLeave s) = [Timeout (next_handle s) 5000]"
  proof
    assume p: "panelRef s"
    have f: "frame s (resetInactivityTimer s)" by (rule resetInactivityTimer_frame(1))
    have "step c PanelMouseLeave s = resetInactivityTimer s"
      using p f by (simp add: step_def commit_noop subtitle_deps_def frame_def)
    then show "pending_closes (step c PanelMouseLeave s) = [Timeout (next_handle s) 5000]"
      using b by simp
  qed
  note H = handler_props[OF w, of c ev]
  have d: "\<not> isPanelOpen s \<and> isPanelOpen (step c ev s) \<longrightarrow> length (pending_closes (step c ev s)) = 1"
  proof
    assume "\<not> isPanelOpen s \<and> isPanelOpen (step c ev s)"
    then have "isPanelOpen s \<noteq> isPanelOpen (handler c ev s)" "isPanelOpen (handler c ev s)"
      by (simp_all add: step_flags)
    from commit_props(4)[OF H this] show "length (pending_closes (step c ev s)) = 1"
      by (simp add: step_def)
  qed
  have w': "wf (step c ev s)" by (rule wf_step[OF w])
  have e: "isPanelOpen s \<and> \<not> isPanelOpen (step c ev s) \<longrightarrow> pending_closes (step c ev s) = []"
    using w' by (simp add: wf_def)
  show ?thesis using a b c d e by blast
qed

theorem C8_single_pending_close_witness:
  "pending_closes (run catalog0 login_u1 app0) = [Timeout 2 5000]
   \<and> panelRef (run catalog0 login_u1 app0)
   \<and> pending_closes (step catalog0 PanelMouseLeave (run catalog0 login_u1 app0)) = [Timeout 3 5000]
   \<and> isPanelOpen (run catalog0 login_u1 app0)
   \<and> \<not> isPanelOpen (step catalog0 (DocumentMouseDown False False) (run catalog0 login_u1 app0))
   \<and> pending_closes (step catalog0 (DocumentMouseDown False False) (run catalog0 login_u1 app0)) = []
   \<and> \<not> isPanelOpen (run catalog0 [] app0)
   \<and> isPanelOpen (step catalog0 (AuthStateChanged (Some ''u1'')) (run catalog0 [] app0))
   \<and> length (pending_closes (step catalog0 (AuthStateChanged (Some ''u1'')) (run catalog0 [] app0))) = 1"
proof -
  have e1: "pending_closes (run catalog0 login_u1 app0) = [Timeout 2 5000]"
    "panelRef (run catalog0 login_u1 app0)" "isPanelOpen (run catalog0 login_u1 app0)"
    "next_handle (run catalog0 login_u1 app0) = 3"
    by (simp_all add: app1_eval panelRef_def pending_closes_def)
  have e2: "\<not> isPanelOpen (step catalog0 (DocumentMouseDown False False) (run catalog0 login_u1 app0))"
    by (simp add: step_flags app1_eval handleOutsideClick_def panelRef_def buttonRef_def)
  have e3: "\<not> isPanelOpen (run catalog0 [] app0)"
    "isPanelOpen (step catalog0 (AuthStateChanged (Some ''u1'')) (run catalog0 [] app0))"
    by (simp_all add: step_flags run_def app0_def init_app_def onAuthStateChanged_def)
  note T1 = C8_single_pending_close[of "run catalog0 login_u1 app0" catalog0 login_u1 store0 local_none
      "DocumentMouseDown False False", unfolded app0_def[symmetric], OF refl]
  note T2 = C8_single_pending_close[of "run catalog0 [] app0" catalog0 "[]" store0 local_none
      "AuthStateChanged (Some ''u1'')", unfolded app0_def[symmetric], OF refl]
  have a: "pending_closes (step catalog0 PanelMouseLeave (run catalog0 login_u1 app0)) = [Timeout 3 5000]"
    using T1 e1 by simp
  have b: "pending_closes (step catalog0 (DocumentMouseDown False False) (run catalog0 login_u1 app0)) = []"
    using T1 e1 e2 by blast
  have c: "length (pending_closes (step catalog0 (AuthStateChanged (Some ''u1'')) (run catalog0 [] app0))) = 1"
    using T2 e3 by blast
  show ?thesis using e1 e2 e3 a b c by blast
qed



end
